theory Spec2Isabelle
  imports Main
begin

section \<open>Resume formatter: a shallow embedding of \<open>src/app.py\<close>\<close>

text \<open>
  The service is one Python script: a document loader chosen by file extension, a call to a
  hosted language model, a clean-up of the model's answer followed by one JSON parse, an HTML
  to PDF renderer, and a Flask handler that runs these per uploaded file and zips the PDFs.

  Python's \<open>str\<close> is modelled by \<open>string\<close>, a \<open>char\<close> standing for the code point of
  the same number, so the model covers the strings whose code points are below 256
  (Latin-1); \<open>str.lower\<close> and \<open>str.strip\<close> are written out for exactly that range.
  \<open>os.path\<close> is \<open>posixpath\<close>.

  The third-party libraries the script calls (the document loaders, the model chain,
  \<open>json.loads\<close>, the Jinja template, WeasyPrint, the operating system's decision whether a
  file may be written) are parameters, collected in the record \<open>libs\<close>; each may fail.
\<close>

subsection \<open>Python strings\<close>

text \<open>\<open>str.lower\<close> on one code point below 256: A-Z and the accented capitals
  U+00C0..U+00DE (without the multiplication sign U+00D7) move up by 32.\<close>

definition char_lower :: "char \<Rightarrow> char" where
  "char_lower c =
     (let n = (of_char c :: nat)
      in if (65 \<le> n \<and> n \<le> 90) \<or> (192 \<le> n \<and> n \<le> 222 \<and> n \<noteq> 215)
         then char_of (n + 32) else c)"

definition lower :: "string \<Rightarrow> string" where
  "lower s = map char_lower s"

text \<open>\<open>str.isspace\<close> on one code point below 256.\<close>

definition isspace :: "char \<Rightarrow> bool" where
  "isspace c \<longleftrightarrow>
     c \<in> set [CHR 0x09, CHR 0x0A, CHR 0x0B, CHR 0x0C, CHR 0x0D, CHR 0x1C, CHR 0x1D,
              CHR 0x1E, CHR 0x1F, CHR 0x20, CHR 0x85, CHR 0xA0]"

text \<open>\<open>s.strip()\<close>: whitespace is removed from both ends.\<close>

definition strip :: "string \<Rightarrow> string" where
  "strip s = rev (dropWhile isspace (rev (dropWhile isspace s)))"

text \<open>\<open>s.startswith(p)\<close> and \<open>p in s\<close> for strings.\<close>

definition startswith :: "string \<Rightarrow> string \<Rightarrow> bool" where
  "startswith s p \<longleftrightarrow> take (length p) s = p"

fun str_contains :: "string \<Rightarrow> string \<Rightarrow> bool" where
  "str_contains [] p = (p = [])"
| "str_contains (c # cs) p = (startswith (c # cs) p \<or> str_contains cs p)"

text \<open>\<open>sep.join(parts)\<close>.\<close>

fun str_join :: "string \<Rightarrow> string list \<Rightarrow> string" where
  "str_join sep [] = []"
| "str_join sep [x] = x"
| "str_join sep (x # y # ys) = x @ sep @ str_join sep (y # ys)"

text \<open>\<open>s.rfind(c)\<close> for a one-character \<open>c\<close>: the last index of \<open>c\<close>, or -1.\<close>

fun rfind :: "string \<Rightarrow> char \<Rightarrow> int" where
  "rfind [] c = -1"
| "rfind (x # xs) c =
     (let r = rfind xs c in if 0 \<le> r then r + 1 else if x = c then 0 else -1)"

subsection \<open>\<open>os.path\<close> (posixpath)\<close>

text \<open>
  \<^verbatim>\<open>
  def _splitext(p, sep, altsep, extsep):
      sepIndex = p.rfind(sep)
      dotIndex = p.rfind(extsep)
      if dotIndex > sepIndex:
          filenameIndex = sepIndex + 1
          while filenameIndex < dotIndex:
              if p[filenameIndex:filenameIndex+1] != extsep:
                  return p[:dotIndex], p[dotIndex:]
              filenameIndex += 1
      return p, p[:0]
  \<close>
  The loop skips the leading dots of the last path component; \<open>None\<close> stands for leaving
  the loop without a return.
\<close>

function splitext_loop :: "string \<Rightarrow> nat \<Rightarrow> nat \<Rightarrow> (string \<times> string) option" where
  "splitext_loop p filenameIndex dotIndex =
     (if filenameIndex < dotIndex
      then if p ! filenameIndex \<noteq> CHR ''.''
           then Some (take dotIndex p, drop dotIndex p)
           else splitext_loop p (filenameIndex + 1) dotIndex
      else None)"
  by pat_completeness auto
termination
  by (relation "measure (\<lambda>(p, filenameIndex, dotIndex). dotIndex - filenameIndex)") auto

declare splitext_loop.simps [simp del]

definition splitext :: "string \<Rightarrow> string \<times> string" where
  "splitext p =
     (let sepIndex = rfind p CHR ''/'';
          dotIndex = rfind p CHR ''.''
      in if dotIndex > sepIndex
         then (case splitext_loop p (nat (sepIndex + 1)) (nat dotIndex) of
                 Some r \<Rightarrow> r
               | None \<Rightarrow> (p, []))
         else (p, []))"

text \<open>\<open>os.path.join(a, b)\<close> with two arguments: an absolute \<open>b\<close> discards \<open>a\<close>.\<close>

definition path_join :: "string \<Rightarrow> string \<Rightarrow> string" where
  "path_join a b =
     (if startswith b ''/'' then b
      else if a = [] \<or> last a = CHR ''/'' then a @ b
      else a @ ''/'' @ b)"

text \<open>\<open>os.path.basename(p)\<close>: \<open>p[p.rfind('/') + 1:]\<close>.\<close>

definition basename :: "string \<Rightarrow> string" where
  "basename p = drop (nat (rfind p CHR ''/'' + 1)) p"

subsection \<open>Values, errors, the libraries and the world\<close>

text \<open>What \<open>json.loads\<close> returns. A \<open>dict\<close> keeps its items in order; a float is kept as
  its text, since the script never computes with one.\<close>

datatype json =
    JNull
  | JBool bool
  | JInt int
  | JFloat string
  | JString string
  | JArray "json list"
  | JObject "(string \<times> json) list"

text \<open>The exceptions that can leave a function. \<open>json.loads\<close> raises \<open>JSONDecodeError\<close>
  on malformed text and \<open>RecursionError\<close> on text nested too deeply; \<open>LibraryError\<close> is
  any other exception raised inside a third-party call.\<close>

datatype error =
    ValueError string
  | TypeError
  | JSONDecodeError
  | RecursionError
  | OSError
  | LibraryError string

text \<open>One line printed to the console (the script prints one fixed warning).\<close>

datatype console_line = Failed_JSON_parse_warning

text \<open>A call into a library, with its arguments: the model chain on a resume text,
  \<open>json.loads\<close> on a text, \<open>template.render\<close> on a name, a contact and the data.\<close>

datatype call =
    Invoke string
  | Loads string
  | Render string string json

text \<open>The state the script reads and writes: the files on disk, the library calls made
  so far in order, and the console. A file on disk is kept under the name \<open>resolve\<close> (of
  the libraries below) gives its path, since several paths can name one file.\<close>

record world =
  fs :: "string \<rightharpoonup> string"
  calls :: "call list"
  console :: "console_line list"

text \<open>
  The libraries. A loader gets the disk and the path it was built with and returns the
  \<open>page_content\<close> of each document. \<open>chain_invoke past text\<close> is the answer of
  \<open>(prompt_template | llm | StrOutputParser()).invoke({"resume_text": text})\<close> after the
  calls \<open>past\<close>: the model need not answer the same text twice alike. \<open>template_render\<close> is
  \<open>template.render(name=, contact=, data=)\<close> of the template file, \<open>html_to_pdf\<close> the bytes
  WeasyPrint produces, \<open>may_write\<close> whether the operating system lets a file be written at a
  path. \<open>resolve\<close> is the operating system's reading of a path: the one name of the file
  the path leads to, so that \<open>output/x.pdf\<close>, \<open>output/./x.pdf\<close> and
  \<open>uploads/../output/x.pdf\<close> resolve alike. The script writes plain files only, which
  changes no resolution.
\<close>

record libs =
  PyPDFLoader_load :: "(string \<rightharpoonup> string) \<Rightarrow> string \<Rightarrow> error + string list"
  Docx2txtLoader_load :: "(string \<rightharpoonup> string) \<Rightarrow> string \<Rightarrow> error + string list"
  chain_invoke :: "call list \<Rightarrow> string \<Rightarrow> error + string"
  json_loads :: "string \<Rightarrow> error + json"
  template_render :: "string \<Rightarrow> string \<Rightarrow> json \<Rightarrow> error + string"
  html_to_pdf :: "string \<Rightarrow> error + string"
  may_write :: "string \<Rightarrow> bool"
  resolve :: "string \<Rightarrow> string"

definition UPLOAD_FOLDER :: string where
  "UPLOAD_FOLDER = ''uploads''"

definition OUTPUT_FOLDER :: string where
  "OUTPUT_FOLDER = ''output''"

text \<open>Writing a file (\<open>file.save(path)\<close>, the last step of \<open>write_pdf(path)\<close>): the file
  the path names is replaced, or the operating system refuses and nothing changes.\<close>

definition write_file :: "libs \<Rightarrow> string \<Rightarrow> string \<Rightarrow> world \<Rightarrow> (error + unit) \<times> world" where
  "write_file L path bytes w =
     (if may_write L path then (Inr (), w\<lparr>fs := (fs w)(resolve L path \<mapsto> bytes)\<rparr>)
      else (Inl OSError, w))"

subsection \<open>\<open>load_resume\<close>\<close>

datatype loader = PyPDFLoader string | Docx2txtLoader string

definition loader_load :: "libs \<Rightarrow> (string \<rightharpoonup> string) \<Rightarrow> loader \<Rightarrow> error + string list" where
  "loader_load L disk l =
     (case l of
        PyPDFLoader file_path \<Rightarrow> PyPDFLoader_load L disk file_path
      | Docx2txtLoader file_path \<Rightarrow> Docx2txtLoader_load L disk file_path)"

text \<open>Lines 71 to 77 of \<open>load_resume\<close>: the extension, lowercased, picks the loader.\<close>

definition select_loader :: "string \<Rightarrow> error + loader" where
  "select_loader file_path =
     (let ext = lower (snd (splitext file_path))
      in if ext = ''.pdf'' then Inr (PyPDFLoader file_path)
         else if ext \<in> set [''.docx'', ''.doc''] then Inr (Docx2txtLoader file_path)
         else Inl (ValueError ''Unsupported file type.''))"

definition load_resume :: "libs \<Rightarrow> (string \<rightharpoonup> string) \<Rightarrow> string \<Rightarrow> error + string" where
  "load_resume L disk file_path =
     (case select_loader file_path of
        Inl e \<Rightarrow> Inl e
      | Inr l \<Rightarrow>
          (case loader_load L disk l of
             Inl e \<Rightarrow> Inl e
           | Inr docs \<Rightarrow> Inr (str_join [CHR 0x0A] docs)))"

subsection \<open>\<open>convert_to_json\<close>\<close>

text \<open>\<open>re.sub(r"```(?:json)?|```", "", response)\<close>: scanning from the left, three backticks
  are removed together with a \<open>json\<close> that follows them at once; the second alternative of
  the pattern matches nothing the first does not.\<close>

definition fence :: string where
  "fence = [CHR 0x60, CHR 0x60, CHR 0x60]"

function sub_fences :: "string \<Rightarrow> string" where
  "sub_fences [] = []"
| "sub_fences (c # cs) =
     (if startswith (c # cs) (fence @ ''json'') then sub_fences (drop 6 cs)
      else if startswith (c # cs) fence then sub_fences (drop 2 cs)
      else c # sub_fences cs)"
  by pat_completeness auto
termination
  by (relation "measure length") auto

definition fallback :: "string \<Rightarrow> json" where
  "fallback response =
     JObject [(''error'', JString ''Invalid JSON from LLM''), (''raw'', JString response)]"

definition convert_to_json :: "libs \<Rightarrow> string \<Rightarrow> world \<Rightarrow> (error + json) \<times> world" where
  "convert_to_json L resume_text w =
     (let w1 = w\<lparr>calls := calls w @ [Invoke resume_text]\<rparr>
      in case chain_invoke L (calls w) resume_text of
           Inl e \<Rightarrow> (Inl e, w1)
         | Inr response \<Rightarrow>
             (let cleaned = strip (sub_fences response);
                  w2 = w1\<lparr>calls := calls w1 @ [Loads cleaned]\<rparr>
              in case json_loads L cleaned of
                   Inr v \<Rightarrow> (Inr v, w2)
                 | Inl JSONDecodeError \<Rightarrow>
                     (Inr (fallback response),
                      w2\<lparr>console := console w2 @ [Failed_JSON_parse_warning]\<rparr>)
                 | Inl e \<Rightarrow> (Inl e, w2)))"

subsection \<open>\<open>generate_company_resume\<close>\<close>

definition generate_company_resume ::
  "libs \<Rightarrow> json \<Rightarrow> string \<Rightarrow> string \<Rightarrow> string \<Rightarrow> world \<Rightarrow> (error + string) \<times> world" where
  "generate_company_resume L data_json name contact fname w =
     (let w1 = w\<lparr>calls := calls w @ [Render name contact data_json]\<rparr>
      in case template_render L name contact data_json of
           Inl e \<Rightarrow> (Inl e, w1)
         | Inr html_content \<Rightarrow>
             (let pdf_path = path_join OUTPUT_FOLDER (fst (splitext fname) @ ''_formatted.pdf'')
              in case html_to_pdf L html_content of
                   Inl e \<Rightarrow> (Inl e, w1)
                 | Inr pdf \<Rightarrow>
                     (case write_file L pdf_path pdf w1 of
                        (Inl e, w2) \<Rightarrow> (Inl e, w2)
                      | (Inr _, w2) \<Rightarrow> (Inr pdf_path, w2))))"

subsection \<open>The upload handler\<close>

text \<open>An uploaded file, and the request: \<open>request.files\<close> and \<open>request.form\<close> are
  multi-dictionaries, lists of items in the order received.\<close>

record FileStorage =
  filename :: string
  stream :: string

record request =
  request_files :: "(string \<times> FileStorage) list"
  request_form :: "(string \<times> string) list"

definition getlist :: "(string \<times> 'a) list \<Rightarrow> string \<Rightarrow> 'a list" where
  "getlist items key = map snd (filter (\<lambda>kv. fst kv = key) items)"

definition form_get :: "(string \<times> string) list \<Rightarrow> string \<Rightarrow> string \<Rightarrow> string" where
  "form_get items key dflt = (case map_of items key of None \<Rightarrow> dflt | Some v \<Rightarrow> v)"

text \<open>\<open>key in value\<close> as Python evaluates it on what \<open>json.loads\<close> can return: a key of a
  dict, an element of a list, a substring of a string, and a \<open>TypeError\<close> on a number, a
  boolean or \<open>None\<close>.\<close>

fun py_in :: "string \<Rightarrow> json \<Rightarrow> error + bool" where
  "py_in key (JObject items) = Inr (key \<in> set (map fst items))"
| "py_in key (JArray xs) = Inr (JString key \<in> set xs)"
| "py_in key (JString s) = Inr (str_contains s key)"
| "py_in key JNull = Inl TypeError"
| "py_in key (JBool b) = Inl TypeError"
| "py_in key (JInt i) = Inl TypeError"
| "py_in key (JFloat x) = Inl TypeError"

text \<open>The loop of \<open>upload_resume\<close> over the files, lines 128 to 139; \<open>pdf_paths\<close> is the
  list built so far. An exception ends the loop and leaves the handler.\<close>

fun process_files ::
  "libs \<Rightarrow> string \<Rightarrow> string \<Rightarrow> FileStorage list \<Rightarrow> string list \<Rightarrow> world
     \<Rightarrow> (error + string list) \<times> world" where
  "process_files L name contact [] pdf_paths w = (Inr pdf_paths, w)"
| "process_files L name contact (file # files) pdf_paths w =
     (let path = path_join UPLOAD_FOLDER (filename file)
      in case write_file L path (stream file) w of
           (Inl e, w1) \<Rightarrow> (Inl e, w1)
         | (Inr _, w1) \<Rightarrow>
             (case load_resume L (fs w1) path of
                Inl e \<Rightarrow> (Inl e, w1)
              | Inr text \<Rightarrow>
                  (case convert_to_json L text w1 of
                     (Inl e, w2) \<Rightarrow> (Inl e, w2)
                   | (Inr resume_json, w2) \<Rightarrow>
                       (case py_in ''error'' resume_json of
                          Inl e \<Rightarrow> (Inl e, w2)
                        | Inr True \<Rightarrow> process_files L name contact files pdf_paths w2
                        | Inr False \<Rightarrow>
                            (case generate_company_resume L resume_json name contact
                                    (filename file) w2 of
                               (Inl e, w3) \<Rightarrow> (Inl e, w3)
                             | (Inr pdf_path, w3) \<Rightarrow>
                                 process_files L name contact files
                                   (pdf_paths @ [pdf_path]) w3)))))"

text \<open>Lines 142 to 145: each path is read from disk and stored under its base name.\<close>

fun zip_write ::
  "libs \<Rightarrow> (string \<rightharpoonup> string) \<Rightarrow> string list \<Rightarrow> error + (string \<times> string) list" where
  "zip_write L disk [] = Inr []"
| "zip_write L disk (pdf # pdfs) =
     (case disk (resolve L pdf) of
        None \<Rightarrow> Inl OSError
      | Some bytes \<Rightarrow>
          (case zip_write L disk pdfs of
             Inl e \<Rightarrow> Inl e
           | Inr entries \<Rightarrow> Inr ((basename pdf, bytes) # entries)))"

text \<open>What the handler answers: \<open>jsonify(body), status\<close>, or \<open>send_file\<close> of the archive
  (its entries as name and bytes) with the download name and the MIME type.\<close>

datatype response =
    Jsonify json nat
  | SendFile "(string \<times> string) list" string string

text \<open>Lines 141 to 153: the archive of the paths collected is built and sent.\<close>

definition send_zip :: "libs \<Rightarrow> string list \<Rightarrow> world \<Rightarrow> (error + response) \<times> world" where
  "send_zip L pdf_paths w =
     (case zip_write L (fs w) pdf_paths of
        Inl e \<Rightarrow> (Inl e, w)
      | Inr entries \<Rightarrow>
          (Inr (SendFile entries ''Formatted_Resumes.zip'' ''application/zip''), w))"

definition upload_resume :: "libs \<Rightarrow> request \<Rightarrow> world \<Rightarrow> (error + response) \<times> world" where
  "upload_resume L req w =
     (let files = getlist (request_files req) ''resume'';
          name = form_get (request_form req) ''name'' ''Candidate'';
          contact = form_get (request_form req) ''contact'' ''example@email.com''
      in if files = [] then (Inr (Jsonify (JObject [(''error'', JString ''No files uploaded'')]) 400), w)
         else case process_files L name contact files [] w of
                (Inl e, w') \<Rightarrow> (Inl e, w')
              | (Inr pdf_paths, w') \<Rightarrow> send_zip L pdf_paths w')"

subsection \<open>A stand-in for the libraries\<close>

text \<open>
  Concrete runs need concrete libraries. In \<open>fixture_libs\<close> the PDF loader returns the file's
  bytes as one page, the DOCX loader a heading and the bytes as two paragraphs, the model
  answers with the resume text itself, \<open>json_loads\<close> is the table of \<open>json.loads\<close> on the
  three texts the runs use (any other text counts as malformed), the template renders the
  name and the contact, every write is allowed and every path names its own file. \<open>w0\<close> is
  the world before the first request.

  \<open>deep_nesting\<close> is the text \<open>'[' * 100000\<close>, on which \<open>json.loads\<close> raises
  \<open>RecursionError\<close>, not \<open>JSONDecodeError\<close>.
\<close>

definition deep_nesting :: string where
  "deep_nesting = replicate 100000 CHR ''[''"

definition fixture_libs :: libs where
  \<open>fixture_libs =
     \<lparr>PyPDFLoader_load =
        (\<lambda>disk p. case disk p of None \<Rightarrow> Inl OSError | Some bytes \<Rightarrow> Inr [bytes]),
      Docx2txtLoader_load =
        (\<lambda>disk p. case disk p of None \<Rightarrow> Inl OSError | Some bytes \<Rightarrow> Inr [''Resume'', bytes]),
      chain_invoke = (\<lambda>past text. Inr text),
      json_loads =
        (\<lambda>s. if s = ''{}'' then Inr (JObject [])
             else if s = ''{"error": "x"}'' then Inr (JObject [(''error'', JString ''x'')])
             else if s = deep_nesting then Inl RecursionError
             else Inl JSONDecodeError),
      template_render = (\<lambda>name contact data. Inr (name @ '','' @ contact)),
      html_to_pdf = (\<lambda>html. Inr (''%PDF '' @ html)),
      may_write = (\<lambda>p. True),
      resolve = (\<lambda>p. p)\<rparr>\<close>

definition w0 :: world where
  "w0 = \<lparr>fs = Map.empty, calls = [], console = []\<rparr>"

text \<open>An answer of the model that is valid JSON with the key \<open>error\<close>, and the requests of
  the concrete runs. With \<open>fixture_libs\<close> the bytes of an uploaded PDF are what the model
  answers for it.\<close>

definition error_answer :: string where
  \<open>error_answer = ''{"error": "x"}''\<close>

definition one_file :: request where
  "one_file =
     \<lparr>request_files = [(''resume'', \<lparr>filename = ''a.pdf'', stream = ''{}''\<rparr>)],
      request_form = []\<rparr>"

definition two_files :: request where
  "two_files =
     \<lparr>request_files = [(''resume'', \<lparr>filename = ''bad.pdf'', stream = ''Sorry''\<rparr>),
                       (''resume'', \<lparr>filename = ''A.PDF'', stream = ''{}''\<rparr>)],
      request_form = []\<rparr>"

definition error_key_only :: request where
  "error_key_only =
     \<lparr>request_files = [(''resume'', \<lparr>filename = ''a.pdf'', stream = error_answer\<rparr>)],
      request_form = []\<rparr>"

definition error_key_then_page :: request where
  "error_key_then_page =
     \<lparr>request_files = [(''resume'', \<lparr>filename = ''a.pdf'', stream = error_answer\<rparr>),
                       (''resume'', \<lparr>filename = ''b.pdf'', stream = ''{}''\<rparr>)],
      request_form = [(''name'', ''Jane Doe'')]\<rparr>"

definition deep_then_page :: request where
  "deep_then_page =
     \<lparr>request_files = [(''resume'', \<lparr>filename = ''deep.pdf'', stream = deep_nesting\<rparr>),
                       (''resume'', \<lparr>filename = ''a.pdf'', stream = ''{}''\<rparr>)],
      request_form = []\<rparr>"

definition page_then_notes :: request where
  "page_then_notes =
     \<lparr>request_files = [(''resume'', \<lparr>filename = ''a.pdf'', stream = ''{}''\<rparr>),
                       (''resume'', \<lparr>filename = ''notes.txt'', stream = ''{}''\<rparr>)],
      request_form = []\<rparr>"

text \<open>Four PDFs generated one after the other, for the file names \<open>y.pdf\<close>, \<open>x.docx\<close>,
  \<open>x.pdf\<close> and \<open>x.pdf\<close> again.\<close>

definition y_done :: world where
  "y_done = snd (generate_company_resume fixture_libs (JObject []) ''Dee'' ''d@x.org'' ''y.pdf'' w0)"

definition docx_done :: world where
  "docx_done =
     snd (generate_company_resume fixture_libs (JObject []) ''Ann'' ''a@x.org'' ''x.docx'' y_done)"

definition first_pdf_done :: world where
  "first_pdf_done =
     snd (generate_company_resume fixture_libs (JObject []) ''Bob'' ''b@x.org'' ''x.pdf'' docx_done)"

definition second_pdf_done :: world where
  "second_pdf_done =
     snd (generate_company_resume fixture_libs (JObject []) ''Cy'' ''c@x.org'' ''x.pdf'' first_pdf_done)"

section \<open>Properties\<close>

lemma deep_nesting_neq:
  "length s \<noteq> 100000 \<Longrightarrow> (s = deep_nesting) = False"
  "length s \<noteq> 100000 \<Longrightarrow> (deep_nesting = s) = False"
  by (auto simp: deep_nesting_def)

text \<open>The definitions a concrete run unfolds.\<close>

lemmas run_defs = deep_nesting_neq
  upload_resume_def send_zip_def getlist_def form_get_def write_file_def load_resume_def
  select_loader_def loader_load_def splitext_def splitext_loop.simps lower_def char_lower_def
  path_join_def startswith_def basename_def UPLOAD_FOLDER_def OUTPUT_FOLDER_def
  convert_to_json_def generate_company_resume_def fixture_libs_def w0_def strip_def
  isspace_def fence_def fallback_def error_answer_def Let_def char_of_eq_iff

subsection \<open>Paths\<close>

lemma rfind_notin: "c \<notin> set xs \<Longrightarrow> rfind xs c = -1"
  by (induction xs) (auto simp: Let_def)

lemma rfind_append_last: "c \<notin> set ys \<Longrightarrow> rfind (xs @ c # ys) c = int (length xs)"
  by (induction xs) (auto simp: Let_def rfind_notin)

lemma splitext_loop_Some:
  "splitext_loop p i d = Some r \<Longrightarrow> r = (take d p, drop d p)"
proof (induction p i d rule: splitext_loop.induct)
  case (1 p i d)
  from "1.prems" have
    "(if i < d then if p ! i \<noteq> CHR ''.'' then Some (take d p, drop d p)
                   else splitext_loop p (i + 1) d
      else None) = Some r"
    by (subst (asm) splitext_loop.simps)
  with "1.IH" show ?case by (auto split: if_splits)
qed

lemma splitext_cases:
  "splitext p = (p, []) \<or> (\<exists>d. splitext p = (take d p, drop d p))"
  by (auto simp: splitext_def Let_def split: option.splits dest: splitext_loop_Some)

text \<open>The extension \<open>splitext\<close> finds is empty, or the text from the last dot on.\<close>

lemma snd_splitext_cases:
  "snd (splitext p) = [] \<or> snd (splitext p) = drop (nat (rfind p CHR ''.'')) p"
  by (auto simp: splitext_def Let_def split: option.splits dest: splitext_loop_Some)

lemma set_fst_splitext: "set (fst (splitext p)) \<subseteq> set p"
  using splitext_cases [of p] by (auto dest: in_set_takeD)

lemma basename_output:
  assumes "CHR ''/'' \<notin> set fname"
  shows "basename (path_join OUTPUT_FOLDER (fst (splitext fname) @ ''_formatted.pdf''))
           = fst (splitext fname) @ ''_formatted.pdf''"
proof -
  let ?b = "fst (splitext fname) @ ''_formatted.pdf''"
  have ns: "CHR ''/'' \<notin> set ?b"
    using assms set_fst_splitext [of fname] by auto
  then have "\<not> startswith ?b ''/''"
    by (cases ?b) (auto simp: startswith_def)
  then have pj: "path_join OUTPUT_FOLDER ?b = ''output'' @ CHR ''/'' # ?b"
    by (simp add: path_join_def OUTPUT_FOLDER_def)
  have "rfind (''output'' @ CHR ''/'' # ?b) CHR ''/'' = int (length ''output'')"
    using ns by (rule rfind_append_last)
  then show ?thesis
    unfolding pj basename_def by simp
qed

lemma rfind_append_notin: "c \<notin> set ys \<Longrightarrow> rfind (xs @ ys) c = rfind xs c"
  by (induction xs) (auto simp: Let_def rfind_notin)

lemma rfind_bounds: "- 1 \<le> rfind xs c \<and> rfind xs c < int (length xs)"
  by (induction xs) (auto simp: Let_def)

lemma splitext_loop_found:
  "\<exists>j. i \<le> j \<and> j < d \<and> p ! j \<noteq> CHR ''.'' \<Longrightarrow>
     splitext_loop p i d = Some (take d p, drop d p)"
proof (induction p i d rule: splitext_loop.induct)
  case (1 p i d)
  then obtain j where j: "i \<le> j" "j < d" "p ! j \<noteq> CHR ''.''" by blast
  then have lt: "i < d" by simp
  show ?case
  proof (cases "p ! i \<noteq> CHR ''.''")
    case True
    with lt show ?thesis by (subst splitext_loop.simps) simp
  next
    case False
    with j have "i + 1 \<le> j" by (cases "i = j") auto
    with j have "\<exists>j. i + 1 \<le> j \<and> j < d \<and> p ! j \<noteq> CHR ''.''" by blast
    with "1.IH" lt False have "splitext_loop p (i + 1) d = Some (take d p, drop d p)"
      by simp
    with lt False show ?thesis by (subst splitext_loop.simps) simp
  qed
qed

lemma splitext_append:
  assumes dot: "CHR ''.'' \<notin> set e'" and sep: "CHR ''/'' \<notin> set e'"
    and name: "\<exists>c \<in> set (basename stem). c \<noteq> CHR ''.''"
  shows "splitext (stem @ CHR ''.'' # e') = (stem, CHR ''.'' # e')"
proof -
  let ?p = "stem @ CHR ''.'' # e'"
  have d: "rfind ?p CHR ''.'' = int (length stem)"
    using dot by (rule rfind_append_last)
  have s: "rfind ?p CHR ''/'' = rfind stem CHR ''/''"
    using sep by (intro rfind_append_notin) simp
  from name obtain c where c: "c \<in> set (drop (nat (rfind stem CHR ''/'' + 1)) stem)"
    "c \<noteq> CHR ''.''"
    by (auto simp: basename_def)
  then obtain k where k: "k < length (drop (nat (rfind stem CHR ''/'' + 1)) stem)"
    "drop (nat (rfind stem CHR ''/'' + 1)) stem ! k = c"
    by (auto simp: in_set_conv_nth)
  let ?j = "nat (rfind stem CHR ''/'' + 1) + k"
  have jl: "?j < length stem" using k(1) by simp
  have "stem ! ?j = c" using k by simp
  then have "?p ! ?j \<noteq> CHR ''.''" using jl c(2) by (simp add: nth_append)
  with jl have "\<exists>j. nat (rfind stem CHR ''/'' + 1) \<le> j \<and> j < length stem \<and> ?p ! j \<noteq> CHR ''.''"
    by (intro exI [of _ ?j]) simp
  then have "splitext_loop ?p (nat (rfind stem CHR ''/'' + 1)) (length stem) =
               Some (take (length stem) ?p, drop (length stem) ?p)"
    by (rule splitext_loop_found)
  moreover have "rfind stem CHR ''/'' < int (length stem)"
    using rfind_bounds by blast
  ultimately show ?thesis
    by (simp add: splitext_def d s)
qed

lemma select_loader_append:
  assumes nm: "\<exists>c \<in> set (basename stem). c \<noteq> CHR ''.''"
    and dot: "CHR ''.'' \<notin> set e'" and sep: "CHR ''/'' \<notin> set e'"
  shows "select_loader (stem @ CHR ''.'' # e') =
           (if lower (CHR ''.'' # e') = ''.pdf'' then Inr (PyPDFLoader (stem @ CHR ''.'' # e'))
            else if lower (CHR ''.'' # e') \<in> set [''.docx'', ''.doc'']
                 then Inr (Docx2txtLoader (stem @ CHR ''.'' # e'))
                 else Inl (ValueError ''Unsupported file type.''))"
  using splitext_append [OF dot sep nm]
  by (simp add: select_loader_def Let_def)

lemma fst_splitext_take: "\<exists>d. fst (splitext p) = take d p"
  using splitext_cases [of p] by (metis fst_conv order_refl take_all)

lemma output_path_relative:
  assumes "\<not> startswith fname ''/''"
  shows "path_join OUTPUT_FOLDER (fst (splitext fname) @ ''_formatted.pdf'')
           = ''output/'' @ fst (splitext fname) @ ''_formatted.pdf''"
proof -
  obtain d where d: "fst (splitext fname) = take d fname"
    using fst_splitext_take by blast
  have "\<not> startswith (take d fname @ ''_formatted.pdf'') ''/''"
    using assms by (cases fname; cases d) (auto simp: startswith_def)
  then show ?thesis
    by (simp add: d path_join_def OUTPUT_FOLDER_def)
qed

subsection \<open>The loop over the files\<close>

lemma process_files_append:
  "process_files L name contact (xs @ ys) acc w =
     (case process_files L name contact xs acc w of
        (Inl e, w') \<Rightarrow> (Inl e, w')
      | (Inr acc', w') \<Rightarrow> process_files L name contact ys acc' w')"
  by (induction xs arbitrary: acc w)
     (auto simp: Let_def split: prod.splits sum.splits bool.splits)

lemma convert_to_json_fallback:
  assumes "chain_invoke L (calls w) text = Inr response"
    and "json_loads L (strip (sub_fences response)) = Inl JSONDecodeError"
  shows "convert_to_json L text w =
           (Inr (fallback response),
            w\<lparr>calls := calls w @ [Invoke text, Loads (strip (sub_fences response))],
              console := console w @ [Failed_JSON_parse_warning]\<rparr>)"
  using assms by (simp add: convert_to_json_def Let_def)

lemma convert_to_json_parsed:
  assumes "chain_invoke L (calls w) text = Inr response"
    and "json_loads L (strip (sub_fences response)) = Inr v"
  shows "convert_to_json L text w =
           (Inr v, w\<lparr>calls := calls w @ [Invoke text, Loads (strip (sub_fences response))]\<rparr>)"
  using assms by (simp add: convert_to_json_def Let_def)

lemma process_files_skip:
  assumes "may_write L (path_join UPLOAD_FOLDER (filename file))"
    and "load_resume L ((fs w)(resolve L (path_join UPLOAD_FOLDER (filename file)) \<mapsto> stream file))
           (path_join UPLOAD_FOLDER (filename file)) = Inr text"
    and "convert_to_json L text
           (w\<lparr>fs := (fs w)(resolve L (path_join UPLOAD_FOLDER (filename file)) \<mapsto> stream file)\<rparr>) = (Inr v, w2)"
    and "py_in ''error'' v = Inr True"
  shows "process_files L name contact (file # files) pdf_paths w =
           process_files L name contact files pdf_paths w2"
  using assms by (simp add: Let_def write_file_def)

lemma upload_resume_split:
  assumes "getlist (request_files req) ''resume'' = pre @ file # post"
    and "process_files L (form_get (request_form req) ''name'' ''Candidate'')
           (form_get (request_form req) ''contact'' ''example@email.com'') pre [] w = (Inr paths, w1)"
  shows "upload_resume L req w =
           (case process_files L (form_get (request_form req) ''name'' ''Candidate'')
                   (form_get (request_form req) ''contact'' ''example@email.com'')
                   (file # post) paths w1 of
              (Inl e, w') \<Rightarrow> (Inl e, w')
            | (Inr pdf_paths, w') \<Rightarrow> send_zip L pdf_paths w')"
  using assms by (simp add: upload_resume_def Let_def process_files_append)

lemma process_files_extends:
  "process_files L name contact xs acc w = (Inr r, w') \<Longrightarrow>
     \<exists>ext. r = acc @ ext \<and> length ext \<le> length xs"
proof (induction xs arbitrary: acc w)
  case Nil
  then show ?case by simp
next
  case (Cons x xs)
  from Cons.prems show ?case
    by (auto simp: Let_def split: prod.splits sum.splits bool.splits dest!: Cons.IH)
qed

lemma zip_write_names:
  "zip_write L disk ps = Inr es \<Longrightarrow> map fst es = map basename ps"
  by (induction ps arbitrary: es) (auto split: option.splits sum.splits)

lemma write_file_calls: "write_file L p b w = (r, w') \<Longrightarrow> calls w' = calls w"
  by (auto simp: write_file_def split: if_splits)

lemma convert_to_json_calls:
  "convert_to_json L text w = (r, w') \<Longrightarrow>
     \<exists>new. calls w' = calls w @ new \<and> (\<forall>n c d. Render n c d \<notin> set new)"
  by (auto simp: convert_to_json_def Let_def split: sum.splits error.splits)

lemma generate_company_resume_calls:
  "generate_company_resume L d name contact fname w = (r, w') \<Longrightarrow>
     calls w' = calls w @ [Render name contact d]"
  by (auto simp: generate_company_resume_def Let_def write_file_def
           split: sum.splits if_splits)

lemma process_files_calls:
  "process_files L name contact xs acc w = (r, w') \<Longrightarrow>
     \<exists>new. calls w' = calls w @ new \<and>
           (\<forall>n c d. Render n c d \<in> set new \<longrightarrow> n = name \<and> c = contact)"
proof (induction xs arbitrary: acc w)
  case Nil
  then show ?case by simp
next
  case (Cons x xs)
  let ?p = "path_join UPLOAD_FOLDER (filename x)"
  show ?case
  proof (cases "may_write L ?p")
    case False
    with Cons.prems show ?thesis by (simp add: Let_def write_file_def)
  next
    case mw: True
    let ?w1 = "w\<lparr>fs := (fs w)(resolve L ?p \<mapsto> stream x)\<rparr>"
    show ?thesis
    proof (cases "load_resume L (fs ?w1) ?p")
      case (Inl e)
      with Cons.prems mw show ?thesis by (auto simp: Let_def write_file_def)
    next
      case (Inr rtext)
      obtain rj w2 where cj: "convert_to_json L rtext ?w1 = (rj, w2)" by force
      from convert_to_json_calls [OF cj] obtain n1 where
        n1: "calls w2 = calls w @ n1" "\<forall>n c d. Render n c d \<notin> set n1" by auto
      show ?thesis
      proof (cases rj)
        case (Inl e)
        with Cons.prems mw Inr cj n1 show ?thesis
          by (auto simp: Let_def write_file_def)
      next
        case v: (Inr v)
        show ?thesis
        proof (cases "py_in ''error'' v")
          case (Inl e)
          with Cons.prems mw Inr cj n1 v show ?thesis
            by (auto simp: Let_def write_file_def)
        next
          case b: (Inr b)
          show ?thesis
          proof (cases b)
            case True
            with Cons.prems mw Inr cj v b
            have "process_files L name contact xs acc w2 = (r, w')"
              by (simp add: Let_def write_file_def)
            from Cons.IH [OF this] obtain n2 where
              n2: "calls w' = calls w2 @ n2"
                  "\<forall>n c d. Render n c d \<in> set n2 \<longrightarrow> n = name \<and> c = contact"
              by blast
            have "calls w' = calls w @ (n1 @ n2)" using n1 n2 by simp
            moreover have "\<forall>n c d. Render n c d \<in> set (n1 @ n2) \<longrightarrow> n = name \<and> c = contact"
              using n1 n2 by auto
            ultimately show ?thesis by blast
          next
            case False
            obtain rg w3 where g: "generate_company_resume L v name contact (filename x) w2 = (rg, w3)"
              by force
            from generate_company_resume_calls [OF g]
            have c3: "calls w3 = calls w @ n1 @ [Render name contact v]" using n1 by simp
            show ?thesis
            proof (cases rg)
              case (Inl e)
              with Cons.prems mw Inr cj v b False g c3 n1 show ?thesis
                by (auto simp: Let_def write_file_def)
            next
              case p: (Inr p)
              with Cons.prems mw Inr cj v b False g
              have "process_files L name contact xs (acc @ [p]) w3 = (r, w')"
                by (simp add: Let_def write_file_def)
              from Cons.IH [OF this] obtain n2 where
                n2: "calls w' = calls w3 @ n2"
                    "\<forall>n c d. Render n c d \<in> set n2 \<longrightarrow> n = name \<and> c = contact"
                by blast
              have "calls w' = calls w @ (n1 @ Render name contact v # n2)"
                using c3 n2 by simp
              moreover have "\<forall>n c d. Render n c d \<in> set (n1 @ Render name contact v # n2)
                               \<longrightarrow> n = name \<and> c = contact"
                using n1 n2 by auto
              ultimately show ?thesis by blast
            qed
          qed
        qed
      qed
    qed
  qed
qed

lemma generate_company_resume_effect:
  assumes "generate_company_resume L d name contact fname w = (Inr p, w')"
  shows "p = path_join OUTPUT_FOLDER (fst (splitext fname) @ ''_formatted.pdf'') \<and>
         (\<exists>html pdf. template_render L name contact d = Inr html \<and>
                     html_to_pdf L html = Inr pdf \<and> fs w' = (fs w)(resolve L p \<mapsto> pdf))"
proof (cases "template_render L name contact d")
  case (Inl e)
  with assms show ?thesis by (simp add: generate_company_resume_def Let_def)
next
  case html: (Inr html)
  show ?thesis
  proof (cases "html_to_pdf L html")
    case (Inl e)
    with assms html show ?thesis by (simp add: generate_company_resume_def Let_def)
  next
    case (Inr pdf)
    with assms html show ?thesis
      by (auto simp: generate_company_resume_def Let_def write_file_def split: if_splits)
  qed
qed

lemma world_update_swap:
  "(w :: world)\<lparr>calls := c, fs := f\<rparr> = w\<lparr>fs := f, calls := c\<rparr>"
  by (cases w) simp

lemma generate_company_resume_path:
  "generate_company_resume L d name contact fname w = (Inr p, w') \<Longrightarrow>
     p = path_join OUTPUT_FOLDER (fst (splitext fname) @ ''_formatted.pdf'')"
  unfolding generate_company_resume_def Let_def write_file_def
  by (cases "template_render L name contact d"; simp)
     (cases "html_to_pdf L (projr (template_render L name contact d))";
      simp split: if_splits)

lemma map_eq_mid:
  "map f xs = ys @ z # zs \<Longrightarrow>
     \<exists>as b bs. xs = as @ b # bs \<and> length as = length ys \<and> f b = z \<and> length bs = length zs"
proof -
  assume "map f xs = ys @ z # zs"
  then obtain us rest where
    u: "xs = us @ rest" "map f us = ys" "map f rest = z # zs"
    by (auto simp: map_eq_append_conv)
  then obtain b bs where
    b: "rest = b # bs" "f b = z" "map f bs = zs"
    by (auto simp: map_eq_Cons_conv)
  have "length us = length ys" "length bs = length zs"
    using u(2) b(3) by auto
  with u(1) b(1,2) show ?thesis by blast
qed

lemma zip_of_rest:
  assumes "(case process_files L name contact post paths w2 of
              (Inl e, w') \<Rightarrow> (Inl e, w')
            | (Inr pdf_paths, w') \<Rightarrow> send_zip L pdf_paths w') = (Inr (SendFile entries a b), w')"
  shows "\<exists>rest. map fst entries = map basename (paths @ rest) \<and> length rest \<le> length post"
proof -
  from assms obtain all_paths w'' where
    pf: "process_files L name contact post paths w2 = (Inr all_paths, w'')" and
    sz: "send_zip L all_paths w'' = (Inr (SendFile entries a b), w')"
    by (auto split: prod.splits sum.splits)
  from process_files_extends [OF pf] obtain ext where
    ext: "all_paths = paths @ ext" "length ext \<le> length post" by auto
  from sz have "zip_write L (fs w'') all_paths = Inr entries"
    by (auto simp: send_zip_def split: sum.splits)
  from zip_write_names [OF this] ext show ?thesis by blast
qed

lemma upload_resume_after_skip:
  assumes files: "getlist (request_files req) ''resume'' = pre @ file # post"
    and name: "name = form_get (request_form req) ''name'' ''Candidate''"
    and contact: "contact = form_get (request_form req) ''contact'' ''example@email.com''"
    and pre: "process_files L name contact pre [] w = (Inr paths, w1)"
    and step: "process_files L name contact (file # post) paths w1 =
                 process_files L name contact post paths w2"
  shows "upload_resume L req w =
           (case process_files L name contact post paths w2 of
              (Inl e, w') \<Rightarrow> (Inl e, w')
            | (Inr pdf_paths, w') \<Rightarrow> send_zip L pdf_paths w') \<and>
         (\<forall>entries a b w'. upload_resume L req w = (Inr (SendFile entries a b), w') \<longrightarrow>
            (\<exists>rest. map fst entries = map basename (paths @ rest) \<and>
                   length rest \<le> length post))"
proof -
  have eq: "upload_resume L req w =
           (case process_files L name contact post paths w2 of
              (Inl e, w') \<Rightarrow> (Inl e, w')
            | (Inr pdf_paths, w') \<Rightarrow> send_zip L pdf_paths w')"
    using upload_resume_split [OF files pre [unfolded name contact]] step
    by (simp add: name contact del: process_files.simps)
  have "\<exists>rest. map fst entries = map basename (paths @ rest) \<and> length rest \<le> length post"
    if "upload_resume L req w = (Inr (SendFile entries a b), w')" for entries a b w'
  proof -
    from that eq have "(case process_files L name contact post paths w2 of
              (Inl e, w') \<Rightarrow> (Inl e, w')
            | (Inr pdf_paths, w') \<Rightarrow> send_zip L pdf_paths w') = (Inr (SendFile entries a b), w')"
      by simp
    then show ?thesis by (rule zip_of_rest)
  qed
  with eq show ?thesis by blast
qed

lemma load_resume_unsupported:
  "lower (snd (splitext file_path)) \<notin> {''.pdf'', ''.docx'', ''.doc''} \<Longrightarrow>
     load_resume L disk file_path = Inl (ValueError ''Unsupported file type.'')"
  by (simp add: load_resume_def select_loader_def Let_def)

lemma process_files_unsupported:
  assumes "lower (snd (splitext (path_join UPLOAD_FOLDER (filename file))))
             \<notin> {''.pdf'', ''.docx'', ''.doc''}"
  shows "process_files L name contact (file # post) paths w1 =
           (if may_write L (path_join UPLOAD_FOLDER (filename file))
            then (Inl (ValueError ''Unsupported file type.''),
                  w1\<lparr>fs := (fs w1)(resolve L (path_join UPLOAD_FOLDER (filename file)) \<mapsto> stream file)\<rparr>)
            else (Inl OSError, w1))"
  using load_resume_unsupported [OF assms]
  by (simp add: Let_def write_file_def)

subsection \<open>Joining and fence removal\<close>

lemma str_join_closed:
  "str_join sep (d # ds) = d @ concat (map (\<lambda>x. sep @ x) ds)"
  by (induction ds arbitrary: d) auto

lemma hd_sub_fences:
  "s = [] \<or> hd s \<noteq> CHR 0x60 \<Longrightarrow> sub_fences s = [] \<or> hd (sub_fences s) \<noteq> CHR 0x60"
  by (cases s) (auto simp: startswith_def fence_def)

text \<open>What \<open>sub_fences\<close> returns holds no run of three backticks: a removal never joins
  backticks that were apart into a new fence.\<close>

lemma sub_fences_no_fence: "\<not> str_contains (sub_fences s) fence"
proof (induction s rule: sub_fences.induct)
  case 1
  then show ?case by (simp add: fence_def)
next
  case (2 c cs)
  show ?case
  proof (cases "startswith (c # cs) (fence @ ''json'')")
    case True
    with 2 show ?thesis by simp
  next
    case nj: False
    show ?thesis
    proof (cases "startswith (c # cs) fence")
      case True
      with nj 2 show ?thesis by simp
    next
      case nf: False
      have ih: "\<not> str_contains (sub_fences cs) fence" using 2(3) nj nf by simp
      have "\<not> startswith (c # sub_fences cs) fence"
      proof (cases "c = CHR 0x60")
        case False
        then show ?thesis by (simp add: startswith_def fence_def)
      next
        case c: True
        show ?thesis
        proof (cases cs)
          case Nil
          then show ?thesis by (simp add: startswith_def fence_def)
        next
          case (Cons d ds)
          show ?thesis
          proof (cases "d = CHR 0x60")
            case False
            then show ?thesis using Cons by (simp add: startswith_def fence_def)
          next
            case d: True
            have nds: "ds = [] \<or> hd ds \<noteq> CHR 0x60"
              using nf c d Cons by (cases ds) (auto simp: startswith_def fence_def)
            have "sub_fences cs = d # sub_fences ds"
              using nds Cons d by (cases ds) (auto simp: startswith_def fence_def)
            moreover have "sub_fences ds = [] \<or> hd (sub_fences ds) \<noteq> CHR 0x60"
              using hd_sub_fences[OF nds] .
            ultimately show ?thesis
              by (cases "sub_fences ds") (auto simp: startswith_def fence_def)
          qed
        qed
      qed
      with ih nj nf show ?thesis by simp
    qed
  qed
qed

lemma sub_fences_id: "CHR 0x60 \<notin> set s \<Longrightarrow> sub_fences s = s"
  by (induction s) (auto simp: startswith_def fence_def)

lemma deep_nesting_clean:
  "sub_fences deep_nesting = deep_nesting"
  "dropWhile isspace deep_nesting = deep_nesting"
  "rev deep_nesting = deep_nesting"
proof -
  show "sub_fences deep_nesting = deep_nesting"
    by (rule sub_fences_id) (simp add: deep_nesting_def)
  show "dropWhile isspace deep_nesting = deep_nesting"
    by (rule dropWhile_eq_self_iff [THEN iffD2]) (simp add: deep_nesting_def isspace_def)
  show "rev deep_nesting = deep_nesting"
    by (simp add: deep_nesting_def)
qed

subsection \<open>\<open>convert_to_json\<close>: one parse, or the fallback\<close>

text \<open>
  C5, as the code has it. For every answer of the model, \<open>convert_to_json\<close> removes the
  code fences (what is left holds no run of three backticks), strips the ends, and hands
  that text to \<open>json.loads\<close> once: the calls it makes are one call of the model and one
  parse, in that order, with no second attempt. When \<open>json.loads\<close> raises
  \<open>JSONDecodeError\<close> the result is the fallback object, whose \<open>raw\<close> is the answer as the
  model gave it, fences included; when \<open>json.loads\<close> raises another exception, that
  exception leaves \<open>convert_to_json\<close>; when the parse succeeds the result is the parsed
  value, whatever its shape.
\<close>

theorem convert_to_json_single_parse:
  assumes "chain_invoke L (calls w) resume_text = Inr response"
  shows "\<not> str_contains (sub_fences response) fence \<and>
         calls (snd (convert_to_json L resume_text w)) =
           calls w @ [Invoke resume_text, Loads (strip (sub_fences response))] \<and>
         (json_loads L (strip (sub_fences response)) = Inl JSONDecodeError \<longrightarrow>
            fst (convert_to_json L resume_text w) =
              Inr (JObject [(''error'', JString ''Invalid JSON from LLM''),
                            (''raw'', JString response)])) \<and>
         (\<forall>e. json_loads L (strip (sub_fences response)) = Inl e \<and> e \<noteq> JSONDecodeError \<longrightarrow>
            fst (convert_to_json L resume_text w) = Inl e) \<and>
         (\<forall>v. json_loads L (strip (sub_fences response)) = Inr v \<longrightarrow>
            fst (convert_to_json L resume_text w) = Inr v)"
  using assms sub_fences_no_fence [of response]
  by (auto simp: convert_to_json_def Let_def fallback_def split: sum.splits error.splits)

theorem convert_to_json_single_parse_witness:
  "fst (convert_to_json fixture_libs (fence @ ''json'' @ [CHR 0x0A] @ ''{}'' @ [CHR 0x0A] @ fence) w0)
     = Inr (JObject []) \<and>
   fst (convert_to_json fixture_libs (fence @ ''Sorry'') w0)
     = Inr (JObject [(''error'', JString ''Invalid JSON from LLM''),
                     (''raw'', JString (fence @ ''Sorry''))]) \<and>
   fst (convert_to_json fixture_libs deep_nesting w0) = Inl RecursionError"
proof -
  let ?a = "fence @ ''json'' @ [CHR 0x0A] @ ''{}'' @ [CHR 0x0A] @ fence"
  let ?b = "fence @ ''Sorry''"
  have ha: "chain_invoke fixture_libs (calls w0) ?a = Inr ?a"
    by (simp add: fixture_libs_def)
  have hb: "chain_invoke fixture_libs (calls w0) ?b = Inr ?b"
    by (simp add: fixture_libs_def)
  have hc: "chain_invoke fixture_libs (calls w0) deep_nesting = Inr deep_nesting"
    by (simp add: fixture_libs_def)
  have ca: "strip (sub_fences ?a) = ''{}''"
    by (simp add: fence_def startswith_def strip_def isspace_def)
  have cb: "strip (sub_fences ?b) = ''Sorry''"
    by (simp add: fence_def startswith_def strip_def isspace_def)
  have pa: "json_loads fixture_libs (strip (sub_fences ?a)) = Inr (JObject [])"
    using ca by (simp add: fixture_libs_def)
  have pb: "json_loads fixture_libs (strip (sub_fences ?b)) = Inl JSONDecodeError"
    using cb by (simp add: fixture_libs_def deep_nesting_neq)
  have pc: "json_loads fixture_libs (strip (sub_fences deep_nesting)) = Inl RecursionError \<and>
            RecursionError \<noteq> JSONDecodeError"
    by (simp add: run_defs deep_nesting_clean)
  from convert_to_json_single_parse [OF ha] convert_to_json_single_parse [OF hb]
    convert_to_json_single_parse [OF hc] pa pb pc
  show ?thesis by blast
qed

text \<open>The claim as stated fails: on the answer \<open>'[' * 100000\<close> the one parse fails with
  \<open>RecursionError\<close>, which \<open>except json.JSONDecodeError\<close> does not catch, and no fallback
  object is returned.\<close>

theorem recursion_error_is_not_caught_counterexample:
  "json_loads fixture_libs (strip (sub_fences deep_nesting)) = Inl RecursionError \<and>
   fst (convert_to_json fixture_libs deep_nesting w0) = Inl RecursionError"
  by (simp add: run_defs deep_nesting_clean)

subsection \<open>The empty file list\<close>

text \<open>
  C3. When the list of files under the field \<open>resume\<close> is empty, \<open>upload_resume\<close> answers
  status 400 with the JSON body \<open>{"error": "No files uploaded"}\<close> and changes nothing; when
  the list is not empty, whatever the handler does, it does not answer with a \<open>jsonify\<close>
  response (so no 400 comes from this check).
\<close>

theorem upload_resume_no_files:
  "(getlist (request_files req) ''resume'' = [] \<longrightarrow>
      upload_resume L req w =
        (Inr (Jsonify (JObject [(''error'', JString ''No files uploaded'')]) 400), w)) \<and>
   (getlist (request_files req) ''resume'' \<noteq> [] \<longrightarrow>
      (\<forall>body status w'. upload_resume L req w \<noteq> (Inr (Jsonify body status), w')))"
  by (auto simp: upload_resume_def send_zip_def Let_def split: prod.splits sum.splits)

theorem upload_resume_no_files_witness:
  "upload_resume fixture_libs \<lparr>request_files = [], request_form = []\<rparr> w0 =
     (Inr (Jsonify (JObject [(''error'', JString ''No files uploaded'')]) 400), w0) \<and>
   upload_resume fixture_libs
       \<lparr>request_files = [(''resume'', \<lparr>filename = ''a.pdf'', stream = ''{}''\<rparr>)],
        request_form = []\<rparr> w0
     \<noteq> (Inr (Jsonify (JObject [(''error'', JString ''No files uploaded'')]) 400), w0)"
proof -
  have e: "getlist (request_files \<lparr>request_files = [], request_form = []\<rparr>) ''resume'' = []"
    by (simp add: getlist_def)
  have n: "getlist (request_files
              \<lparr>request_files = [(''resume'', \<lparr>filename = ''a.pdf'', stream = ''{}''\<rparr>)],
               request_form = []\<rparr>) ''resume'' \<noteq> []"
    by (simp add: getlist_def)
  show ?thesis
    using upload_resume_no_files [of "\<lparr>request_files = [], request_form = []\<rparr>" fixture_libs w0]
      upload_resume_no_files
        [of "\<lparr>request_files = [(''resume'', \<lparr>filename = ''a.pdf'', stream = ''{}''\<rparr>)],
              request_form = []\<rparr>" fixture_libs w0]
      e n
    by blast
qed

subsection \<open>\<open>load_resume\<close> joins the pages\<close>

text \<open>
  C6. For a path whose extension, lowercased, is \<open>.pdf\<close>, \<open>.docx\<close> or \<open>.doc\<close>, when the
  loader for that extension returns its documents, \<open>load_resume\<close> returns their texts in
  order with one newline between neighbours: the first text followed by a newline and the
  text for each further document (the empty string when there is no document).
\<close>

theorem load_resume_joins_pages:
  assumes "lower (snd (splitext file_path)) \<in> {''.pdf'', ''.docx'', ''.doc''}"
    and "(if lower (snd (splitext file_path)) = ''.pdf''
          then PyPDFLoader_load L disk file_path
          else Docx2txtLoader_load L disk file_path) = Inr docs"
  shows "load_resume L disk file_path = Inr (str_join [CHR 0x0A] docs) \<and>
         str_join [CHR 0x0A] docs =
           (case docs of [] \<Rightarrow> [] | d # ds \<Rightarrow> d @ concat (map (\<lambda>x. CHR 0x0A # x) ds))"
  using assms
  by (auto simp: load_resume_def select_loader_def loader_load_def Let_def str_join_closed
           split: list.splits if_splits)

theorem load_resume_joins_pages_witness:
  "load_resume fixture_libs [''uploads/a.docx'' \<mapsto> ''Jane Doe''] ''uploads/a.docx''
     = Inr (''Resume'' @ [CHR 0x0A] @ ''Jane Doe'')"
proof -
  have ext: "splitext ''uploads/a.docx'' = (''uploads/a'', ''.docx'')"
    by (simp add: splitext_def splitext_loop.simps)
  have low: "lower ''.docx'' = ''.docx''"
    by (simp add: lower_def char_lower_def)
  have h1: "lower (snd (splitext ''uploads/a.docx'')) \<in> {''.pdf'', ''.docx'', ''.doc''}"
    by (simp add: ext low)
  have h2: "(if lower (snd (splitext ''uploads/a.docx'')) = ''.pdf''
             then PyPDFLoader_load fixture_libs [''uploads/a.docx'' \<mapsto> ''Jane Doe''] ''uploads/a.docx''
             else Docx2txtLoader_load fixture_libs [''uploads/a.docx'' \<mapsto> ''Jane Doe''] ''uploads/a.docx'')
            = Inr [''Resume'', ''Jane Doe'']"
    by (simp add: ext low fixture_libs_def)
  from load_resume_joins_pages [OF h1 h2] show ?thesis by simp
qed

subsection \<open>A file whose answer is not JSON is skipped\<close>

text \<open>
  C2, as the code has it. Let the request's files be \<open>pre\<close>, then \<open>file\<close>, then \<open>post\<close>;
  let the loop have handled \<open>pre\<close> without an exception, with the PDFs \<open>paths\<close>, reaching
  the world \<open>w1\<close>. When the upload of \<open>file\<close> is saved and loaded, the model answers, and
  \<open>json.loads\<close> rejects the cleaned answer with \<open>JSONDecodeError\<close>, the file is skipped: the handler's answer is the one of going on with
  \<open>post\<close> from the same list \<open>paths\<close>, in a world that differs from \<open>w1\<close> by the saved
  upload, the two library calls and the console warning only (no PDF was written, no
  renderer called). So the remaining files are still processed, nothing about the skipped
  file is in the answer, and the names in a returned archive are those of the PDFs of \<open>pre\<close>
  followed by at most one per file of \<open>post\<close>.
\<close>

theorem invalid_json_file_is_skipped:
  assumes files: "getlist (request_files req) ''resume'' = pre @ file # post"
    and name: "name = form_get (request_form req) ''name'' ''Candidate''"
    and contact: "contact = form_get (request_form req) ''contact'' ''example@email.com''"
    and pre: "process_files L name contact pre [] w = (Inr paths, w1)"
    and path: "path = path_join UPLOAD_FOLDER (filename file)"
    and save: "may_write L path"
    and load: "load_resume L ((fs w1)(resolve L path \<mapsto> stream file)) path = Inr text"
    and resp: "chain_invoke L (calls w1) text = Inr response"
    and bad: "json_loads L (strip (sub_fences response)) = Inl JSONDecodeError"
  shows "upload_resume L req w =
           (case process_files L name contact post paths
                   (w1\<lparr>fs := (fs w1)(resolve L path \<mapsto> stream file),
                       calls := calls w1 @ [Invoke text, Loads (strip (sub_fences response))],
                       console := console w1 @ [Failed_JSON_parse_warning]\<rparr>) of
              (Inl e, w') \<Rightarrow> (Inl e, w')
            | (Inr pdf_paths, w') \<Rightarrow> send_zip L pdf_paths w') \<and>
         (\<forall>entries a b w'. upload_resume L req w = (Inr (SendFile entries a b), w') \<longrightarrow>
            (\<exists>rest. map fst entries = map basename (paths @ rest) \<and>
                   length rest \<le> length post))"
proof -
  let ?w1' = "w1\<lparr>fs := (fs w1)(resolve L path \<mapsto> stream file)\<rparr>"
  have c: "convert_to_json L text ?w1' =
             (Inr (fallback response),
              ?w1'\<lparr>calls := calls ?w1' @ [Invoke text, Loads (strip (sub_fences response))],
                    console := console ?w1' @ [Failed_JSON_parse_warning]\<rparr>)"
    using resp bad by (intro convert_to_json_fallback) simp_all
  have e: "py_in ''error'' (fallback response) = Inr True"
    by (simp add: fallback_def)
  have "process_files L name contact (file # post) paths w1 =
          process_files L name contact post paths
            (?w1'\<lparr>calls := calls ?w1' @ [Invoke text, Loads (strip (sub_fences response))],
                  console := console ?w1' @ [Failed_JSON_parse_warning]\<rparr>)"
    using save load c e unfolding path by (rule process_files_skip)
  then have "process_files L name contact (file # post) paths w1 =
          process_files L name contact post paths
            (w1\<lparr>fs := (fs w1)(resolve L path \<mapsto> stream file),
                calls := calls w1 @ [Invoke text, Loads (strip (sub_fences response))],
                console := console w1 @ [Failed_JSON_parse_warning]\<rparr>)"
    by simp
  with files name contact pre show ?thesis
    by (rule upload_resume_after_skip)
qed

theorem invalid_json_file_is_skipped_witness:
  "fst (upload_resume fixture_libs two_files w0) =
     Inr (SendFile [(''A_formatted.pdf'', ''%PDF Candidate,example@email.com'')]
            ''Formatted_Resumes.zip'' ''application/zip'')"
proof -
  let ?file = "\<lparr>filename = ''bad.pdf'', stream = ''Sorry''\<rparr>"
  let ?post = "[\<lparr>filename = ''A.PDF'', stream = ''{}''\<rparr>]"
  have files: "getlist (request_files two_files) ''resume'' = [] @ ?file # ?post"
    by (simp add: two_files_def getlist_def)
  have name: "''Candidate'' = form_get (request_form two_files) ''name'' ''Candidate''"
    by (simp add: two_files_def form_get_def)
  have contact: "''example@email.com'' =
      form_get (request_form two_files) ''contact'' ''example@email.com''"
    by (simp add: two_files_def form_get_def)
  have pre: "process_files fixture_libs ''Candidate'' ''example@email.com'' [] [] w0 = (Inr [], w0)"
    by simp
  have path: "''uploads/bad.pdf'' = path_join UPLOAD_FOLDER (filename ?file)"
    by (simp add: run_defs)
  have save: "may_write fixture_libs ''uploads/bad.pdf''"
    by (simp add: fixture_libs_def)
  have load: "load_resume fixture_libs ((fs w0)(resolve fixture_libs ''uploads/bad.pdf'' \<mapsto> stream ?file))
                ''uploads/bad.pdf'' = Inr ''Sorry''"
    by (simp add: run_defs)
  have resp: "chain_invoke fixture_libs (calls w0) ''Sorry'' = Inr ''Sorry''"
    by (simp add: fixture_libs_def)
  have bad: "json_loads fixture_libs (strip (sub_fences ''Sorry'')) = Inl JSONDecodeError"
    by (simp add: run_defs)
  from invalid_json_file_is_skipped [OF files name contact pre path save load resp bad]
  show ?thesis
    by (simp add: run_defs)
qed

text \<open>The claim as stated fails: the answer \<open>'[' * 100000\<close> for the first file does not
  parse, \<open>json.loads\<close> raising \<open>RecursionError\<close>; nothing catches it, the request ends in
  that exception, and the second file is never saved, sent to the model or rendered.\<close>

theorem recursion_error_ends_request_counterexample:
  "json_loads fixture_libs (strip (sub_fences deep_nesting)) = Inl RecursionError \<and>
   fst (upload_resume fixture_libs deep_then_page w0) = Inl RecursionError \<and>
   calls (snd (upload_resume fixture_libs deep_then_page w0)) =
     [Invoke deep_nesting, Loads deep_nesting] \<and>
   fs (snd (upload_resume fixture_libs deep_then_page w0)) = [''uploads/deep.pdf'' \<mapsto> deep_nesting]"
  by (simp add: run_defs deep_nesting_clean deep_then_page_def)

subsection \<open>A file whose answer has the key \<open>error\<close> is skipped too\<close>

text \<open>
  C8. The test of the loop is \<open>"error" in resume_json\<close>, not the failure of the parse:
  in the setting of C2, when the cleaned answer parses to a JSON object that has the key
  \<open>error\<close>, the file is skipped in the same way, without the console warning: the
  handler's answer is the one of going on with \<open>post\<close> from the same list \<open>paths\<close>, and the
  names in a returned archive are those of the PDFs of \<open>pre\<close> followed by at most one per
  file of \<open>post\<close>.
\<close>

theorem error_key_file_is_skipped:
  assumes files: "getlist (request_files req) ''resume'' = pre @ file # post"
    and name: "name = form_get (request_form req) ''name'' ''Candidate''"
    and contact: "contact = form_get (request_form req) ''contact'' ''example@email.com''"
    and pre: "process_files L name contact pre [] w = (Inr paths, w1)"
    and path: "path = path_join UPLOAD_FOLDER (filename file)"
    and save: "may_write L path"
    and load: "load_resume L ((fs w1)(resolve L path \<mapsto> stream file)) path = Inr text"
    and resp: "chain_invoke L (calls w1) text = Inr response"
    and parsed: "json_loads L (strip (sub_fences response)) = Inr (JObject items)"
    and key: "''error'' \<in> fst ` set items"
  shows "upload_resume L req w =
           (case process_files L name contact post paths
                   (w1\<lparr>fs := (fs w1)(resolve L path \<mapsto> stream file),
                       calls := calls w1 @ [Invoke text, Loads (strip (sub_fences response))]\<rparr>) of
              (Inl e, w') \<Rightarrow> (Inl e, w')
            | (Inr pdf_paths, w') \<Rightarrow> send_zip L pdf_paths w') \<and>
         (\<forall>entries a b w'. upload_resume L req w = (Inr (SendFile entries a b), w') \<longrightarrow>
            (\<exists>rest. map fst entries = map basename (paths @ rest) \<and>
                   length rest \<le> length post))"
proof -
  let ?w1' = "w1\<lparr>fs := (fs w1)(resolve L path \<mapsto> stream file)\<rparr>"
  have c: "convert_to_json L text ?w1' =
             (Inr (JObject items),
              ?w1'\<lparr>calls := calls ?w1' @ [Invoke text, Loads (strip (sub_fences response))]\<rparr>)"
    using resp parsed by (intro convert_to_json_parsed) simp_all
  have e: "py_in ''error'' (JObject items) = Inr True"
    using key by simp
  have "process_files L name contact (file # post) paths w1 =
          process_files L name contact post paths
            (?w1'\<lparr>calls := calls ?w1' @ [Invoke text, Loads (strip (sub_fences response))]\<rparr>)"
    using save load c e unfolding path by (rule process_files_skip)
  then have "process_files L name contact (file # post) paths w1 =
          process_files L name contact post paths
            (w1\<lparr>fs := (fs w1)(resolve L path \<mapsto> stream file),
                calls := calls w1 @ [Invoke text, Loads (strip (sub_fences response))]\<rparr>)"
    by simp
  with files name contact pre show ?thesis
    by (rule upload_resume_after_skip)
qed

theorem error_key_file_is_skipped_witness:
  "fst (upload_resume fixture_libs error_key_then_page w0) =
     Inr (SendFile [(''b_formatted.pdf'', ''%PDF Jane Doe,example@email.com'')]
            ''Formatted_Resumes.zip'' ''application/zip'')"
proof -
  let ?file = "\<lparr>filename = ''a.pdf'', stream = error_answer\<rparr>"
  let ?post = "[\<lparr>filename = ''b.pdf'', stream = ''{}''\<rparr>]"
  have files: "getlist (request_files error_key_then_page) ''resume'' = [] @ ?file # ?post"
    by (simp add: error_key_then_page_def getlist_def)
  have name: "''Jane Doe'' = form_get (request_form error_key_then_page) ''name'' ''Candidate''"
    by (simp add: error_key_then_page_def form_get_def)
  have contact: "''example@email.com'' =
      form_get (request_form error_key_then_page) ''contact'' ''example@email.com''"
    by (simp add: error_key_then_page_def form_get_def)
  have pre: "process_files fixture_libs ''Jane Doe'' ''example@email.com'' [] [] w0 = (Inr [], w0)"
    by simp
  have path: "''uploads/a.pdf'' = path_join UPLOAD_FOLDER (filename ?file)"
    by (simp add: run_defs)
  have save: "may_write fixture_libs ''uploads/a.pdf''"
    by (simp add: fixture_libs_def)
  have load: "load_resume fixture_libs ((fs w0)(resolve fixture_libs ''uploads/a.pdf'' \<mapsto> stream ?file))
                ''uploads/a.pdf'' = Inr error_answer"
    by (simp add: run_defs)
  have resp: "chain_invoke fixture_libs (calls w0) error_answer = Inr error_answer"
    by (simp add: fixture_libs_def)
  have parsed: "json_loads fixture_libs (strip (sub_fences error_answer)) =
                  Inr (JObject [(''error'', JString ''x'')])"
    by (simp add: run_defs)
  have key: "''error'' \<in> fst ` set [(''error'', JString ''x'')]"
    by simp
  from error_key_file_is_skipped [OF files name contact pre path save load resp parsed key]
  show ?thesis
    by (simp add: run_defs)
qed

subsection \<open>An unsupported extension\<close>

text \<open>
  C4. When the extension of a path, lowercased, is none of \<open>.pdf\<close>, \<open>.docx\<close>, \<open>.doc\<close>
  (an empty extension included), \<open>load_resume\<close> raises
  \<open>ValueError("Unsupported file type.")\<close> and returns no text; so it does when the text
  of the path from its last dot on, lowercased, is none of the three. The handler does not catch
  it: a request that holds a file whose upload path has such an extension always ends in an
  exception, never in an answer; and when the loop reaches that file (the files before it
  raised nothing) and its upload is saved, the exception is that \<open>ValueError\<close> and the
  world is the one before the file with the saved upload added, so no PDF was written for
  it.
\<close>

theorem unsupported_extension_raises:
  "(lower (snd (splitext file_path)) \<notin> {''.pdf'', ''.docx'', ''.doc''} \<longrightarrow>
      load_resume L disk file_path = Inl (ValueError ''Unsupported file type.'')) \<and>
   (lower (drop (nat (rfind file_path CHR ''.'')) file_path) \<notin> {''.pdf'', ''.docx'', ''.doc''} \<longrightarrow>
      load_resume L disk file_path = Inl (ValueError ''Unsupported file type.'')) \<and>
   (lower (snd (splitext (path_join UPLOAD_FOLDER (filename file))))
        \<notin> {''.pdf'', ''.docx'', ''.doc''} \<and>
    getlist (request_files req) ''resume'' = pre @ file # post \<longrightarrow>
      (\<exists>e w'. upload_resume L req w = (Inl e, w')) \<and>
      (\<forall>paths w1.
         process_files L (form_get (request_form req) ''name'' ''Candidate'')
           (form_get (request_form req) ''contact'' ''example@email.com'') pre [] w = (Inr paths, w1) \<and>
         may_write L (path_join UPLOAD_FOLDER (filename file)) \<longrightarrow>
           upload_resume L req w =
             (Inl (ValueError ''Unsupported file type.''),
              w1\<lparr>fs := (fs w1)(resolve L (path_join UPLOAD_FOLDER (filename file)) \<mapsto> stream file)\<rparr>)))"
proof (intro conjI impI allI)
  assume "lower (snd (splitext file_path)) \<notin> {''.pdf'', ''.docx'', ''.doc''}"
  then show "load_resume L disk file_path = Inl (ValueError ''Unsupported file type.'')"
    by (rule load_resume_unsupported)
next
  assume "lower (drop (nat (rfind file_path CHR ''.'')) file_path) \<notin> {''.pdf'', ''.docx'', ''.doc''}"
  moreover have "lower [] \<notin> {''.pdf'', ''.docx'', ''.doc''}"
    by (simp add: lower_def)
  ultimately have "lower (snd (splitext file_path)) \<notin> {''.pdf'', ''.docx'', ''.doc''}"
    using snd_splitext_cases [of file_path] by metis
  then show "load_resume L disk file_path = Inl (ValueError ''Unsupported file type.'')"
    by (rule load_resume_unsupported)
next
  let ?n = "form_get (request_form req) ''name'' ''Candidate''"
  let ?c = "form_get (request_form req) ''contact'' ''example@email.com''"
  assume a: "lower (snd (splitext (path_join UPLOAD_FOLDER (filename file))))
               \<notin> {''.pdf'', ''.docx'', ''.doc''} \<and>
             getlist (request_files req) ''resume'' = pre @ file # post"
  then have ne: "getlist (request_files req) ''resume'' \<noteq> []" by simp
  obtain r w1 where p: "process_files L ?n ?c pre [] w = (r, w1)" by force
  show "\<exists>e w'. upload_resume L req w = (Inl e, w')"
  proof (cases r)
    case (Inl e)
    with p a show ?thesis
      by (simp add: upload_resume_def Let_def process_files_append)
  next
    case (Inr paths)
    with p a process_files_unsupported [of "file" L "?n" "?c" post paths w1] show ?thesis
      by (simp add: upload_resume_def Let_def process_files_append del: process_files.simps)
  qed
next
  fix paths w1
  let ?n = "form_get (request_form req) ''name'' ''Candidate''"
  let ?c = "form_get (request_form req) ''contact'' ''example@email.com''"
  assume a: "lower (snd (splitext (path_join UPLOAD_FOLDER (filename file))))
               \<notin> {''.pdf'', ''.docx'', ''.doc''} \<and>
             getlist (request_files req) ''resume'' = pre @ file # post"
    and b: "process_files L ?n ?c pre [] w = (Inr paths, w1) \<and>
            may_write L (path_join UPLOAD_FOLDER (filename file))"
  from a b process_files_unsupported [of "file" L "?n" "?c" post paths w1]
  show "upload_resume L req w =
          (Inl (ValueError ''Unsupported file type.''),
           w1\<lparr>fs := (fs w1)(resolve L (path_join UPLOAD_FOLDER (filename file)) \<mapsto> stream file)\<rparr>)"
    by (simp add: upload_resume_def Let_def process_files_append del: process_files.simps)
qed

theorem unsupported_extension_raises_witness:
  "load_resume fixture_libs Map.empty ''uploads/notes.txt'' =
     Inl (ValueError ''Unsupported file type.'') \<and>
   fst (upload_resume fixture_libs page_then_notes w0) =
     Inl (ValueError ''Unsupported file type.'') \<and>
   fs (snd (upload_resume fixture_libs page_then_notes w0)) =
     [''uploads/a.pdf'' \<mapsto> ''{}'',
      ''output/a_formatted.pdf'' \<mapsto> ''%PDF Candidate,example@email.com'',
      ''uploads/notes.txt'' \<mapsto> ''{}'']"
proof -
  let ?file = "\<lparr>filename = ''notes.txt'', stream = ''{}''\<rparr>"
  let ?pre = "[\<lparr>filename = ''a.pdf'', stream = ''{}''\<rparr>]"
  let ?w1 = "\<lparr>fs = [''uploads/a.pdf'' \<mapsto> ''{}'',
                      ''output/a_formatted.pdf'' \<mapsto> ''%PDF Candidate,example@email.com''],
              calls = [Invoke ''{}'', Loads ''{}'',
                       Render ''Candidate'' ''example@email.com'' (JObject [])],
              console = []\<rparr>"
  have h1: "lower (snd (splitext ''uploads/notes.txt'')) \<notin> {''.pdf'', ''.docx'', ''.doc''}"
    by (simp add: run_defs)
  have h0: "lower (drop (nat (rfind ''uploads/notes.txt'' CHR ''.'')) ''uploads/notes.txt'')
              \<notin> {''.pdf'', ''.docx'', ''.doc''}"
    by (simp add: run_defs)
  have h2: "lower (snd (splitext (path_join UPLOAD_FOLDER (filename ?file))))
              \<notin> {''.pdf'', ''.docx'', ''.doc''}"
    by (simp add: run_defs)
  have h3: "getlist (request_files page_then_notes) ''resume'' = ?pre @ ?file # []"
    by (simp add: page_then_notes_def getlist_def)
  have h4: "process_files fixture_libs
              (form_get (request_form page_then_notes) ''name'' ''Candidate'')
              (form_get (request_form page_then_notes) ''contact'' ''example@email.com'')
              ?pre [] w0 = (Inr [''output/a_formatted.pdf''], ?w1)"
    by (simp add: run_defs page_then_notes_def)
  have h5: "may_write fixture_libs (path_join UPLOAD_FOLDER (filename ?file))"
    by (simp add: fixture_libs_def)
  from unsupported_extension_raises [of "''uploads/notes.txt''" fixture_libs Map.empty "?file" page_then_notes
             "?pre" "[]" w0] h0 h1 h2 h3 h4 h5
  have "load_resume fixture_libs Map.empty ''uploads/notes.txt'' =
          Inl (ValueError ''Unsupported file type.'')"
    and "upload_resume fixture_libs page_then_notes w0 =
          (Inl (ValueError ''Unsupported file type.''),
           ?w1\<lparr>fs := (fs ?w1)(resolve fixture_libs (path_join UPLOAD_FOLDER (filename ?file)) \<mapsto> stream ?file)\<rparr>)"
    by blast+
  then show ?thesis
    by (simp add: run_defs)
qed

subsection \<open>Defaults of the form fields\<close>

text \<open>
  C9. Let \<open>name\<close> be the form field \<open>name\<close>, or \<open>Candidate\<close> when the field is absent,
  and \<open>contact\<close> the form field \<open>contact\<close>, or \<open>example@email.com\<close> when the field is
  absent. For a file of the request that is saved, loaded, answered with JSON that passes
  the test of the loop, rendered and written, the PDF written at its output path is the
  one made from \<open>template.render\<close> applied to \<open>name\<close>, \<open>contact\<close> and the parsed
  value: the renderer receives the defaults in place of the missing fields. The files
  before and after it are handled with the same two values, and every \<open>render\<close> call of
  the request gets them.
\<close>

theorem missing_form_fields_default:
  assumes files: "getlist (request_files req) ''resume'' = pre @ file # post"
    and name: "name = (case map_of (request_form req) ''name'' of
                         None \<Rightarrow> ''Candidate'' | Some x \<Rightarrow> x)"
    and contact: "contact = (case map_of (request_form req) ''contact'' of
                               None \<Rightarrow> ''example@email.com'' | Some x \<Rightarrow> x)"
    and pre: "process_files L name contact pre [] w = (Inr paths, w1)"
    and path: "path = path_join UPLOAD_FOLDER (filename file)"
    and save: "may_write L path"
    and load: "load_resume L ((fs w1)(resolve L path \<mapsto> stream file)) path = Inr text"
    and resp: "chain_invoke L (calls w1) text = Inr response"
    and parsed: "json_loads L (strip (sub_fences response)) = Inr v"
    and noerr: "py_in ''error'' v = Inr False"
    and html: "template_render L name contact v = Inr html"
    and pdf: "html_to_pdf L html = Inr pdf"
    and out: "p = path_join OUTPUT_FOLDER (fst (splitext (filename file)) @ ''_formatted.pdf'')"
    and wr: "may_write L p"
  shows "upload_resume L req w =
           (case process_files L name contact post (paths @ [p])
                   (w1\<lparr>fs := ((fs w1)(resolve L path \<mapsto> stream file))(resolve L p \<mapsto> pdf),
                       calls := calls w1 @ [Invoke text, Loads (strip (sub_fences response)),
                                            Render name contact v]\<rparr>) of
              (Inl e, w') \<Rightarrow> (Inl e, w')
            | (Inr pdf_paths, w') \<Rightarrow> send_zip L pdf_paths w') \<and>
         (\<exists>new. calls (snd (upload_resume L req w)) = calls w @ new \<and>
                (\<forall>n c d. Render n c d \<in> set new \<longrightarrow> n = name \<and> c = contact))"
proof -
  have nm: "name = form_get (request_form req) ''name'' ''Candidate''"
    and ct: "contact = form_get (request_form req) ''contact'' ''example@email.com''"
    using name contact by (simp_all add: form_get_def)
  let ?w1' = "w1\<lparr>fs := (fs w1)(resolve L path \<mapsto> stream file)\<rparr>"
  let ?w2 = "?w1'\<lparr>calls := calls ?w1' @ [Invoke text, Loads (strip (sub_fences response))]\<rparr>"
  have c: "convert_to_json L text ?w1' = (Inr v, ?w2)"
    using resp parsed by (intro convert_to_json_parsed) simp_all
  have g: "generate_company_resume L v name contact (filename file) ?w2 =
             (Inr p, ?w2\<lparr>calls := calls ?w2 @ [Render name contact v],
                         fs := (fs ?w2)(resolve L p \<mapsto> pdf)\<rparr>)"
    using html pdf out wr
    by (simp add: generate_company_resume_def Let_def write_file_def)
  have step: "process_files L name contact (file # post) paths w1 =
                process_files L name contact post (paths @ [p])
                  (w1\<lparr>fs := ((fs w1)(resolve L path \<mapsto> stream file))(resolve L p \<mapsto> pdf),
                      calls := calls w1 @ [Invoke text, Loads (strip (sub_fences response)),
                                           Render name contact v]\<rparr>)"
    using save load c noerr g unfolding path
    by (simp add: Let_def write_file_def world_update_swap)
  have eq: "upload_resume L req w =
           (case process_files L name contact post (paths @ [p])
                   (w1\<lparr>fs := ((fs w1)(resolve L path \<mapsto> stream file))(resolve L p \<mapsto> pdf),
                       calls := calls w1 @ [Invoke text, Loads (strip (sub_fences response)),
                                            Render name contact v]\<rparr>) of
              (Inl e, w') \<Rightarrow> (Inl e, w')
            | (Inr pdf_paths, w') \<Rightarrow> send_zip L pdf_paths w')"
    using upload_resume_split [OF files pre [unfolded nm ct]] step
    by (simp add: nm ct del: process_files.simps)
  have ne: "getlist (request_files req) ''resume'' \<noteq> []" using files by simp
  obtain r w' where pf:
    "process_files L name contact (getlist (request_files req) ''resume'') [] w = (r, w')"
    by force
  have s: "snd (upload_resume L req w) = w'"
    using ne pf
    by (auto simp: upload_resume_def send_zip_def Let_def nm ct split: sum.splits)
  from process_files_calls [OF pf]
  have tr: "\<exists>new. calls (snd (upload_resume L req w)) = calls w @ new \<and>
                (\<forall>n c d. Render n c d \<in> set new \<longrightarrow> n = name \<and> c = contact)"
    unfolding s by blast
  from eq tr show ?thesis by blast
qed

theorem missing_form_fields_default_witness:
  "fst (upload_resume fixture_libs one_file w0) =
     Inr (SendFile [(''a_formatted.pdf'', ''%PDF Candidate,example@email.com'')]
            ''Formatted_Resumes.zip'' ''application/zip'') \<and>
   fs (snd (upload_resume fixture_libs one_file w0)) ''output/a_formatted.pdf'' =
     Some ''%PDF Candidate,example@email.com''"
proof -
  let ?file = "\<lparr>filename = ''a.pdf'', stream = ''{}''\<rparr>"
  have files: "getlist (request_files one_file) ''resume'' = [] @ ?file # []"
    by (simp add: one_file_def getlist_def)
  have name: "''Candidate'' = (case map_of (request_form one_file) ''name'' of
                                 None \<Rightarrow> ''Candidate'' | Some x \<Rightarrow> x)"
    by (simp add: one_file_def)
  have contact: "''example@email.com'' = (case map_of (request_form one_file) ''contact'' of
                                 None \<Rightarrow> ''example@email.com'' | Some x \<Rightarrow> x)"
    by (simp add: one_file_def)
  have pre: "process_files fixture_libs ''Candidate'' ''example@email.com'' [] [] w0 = (Inr [], w0)"
    by simp
  have path: "''uploads/a.pdf'' = path_join UPLOAD_FOLDER (filename ?file)"
    by (simp add: run_defs)
  have save: "may_write fixture_libs ''uploads/a.pdf''"
    by (simp add: fixture_libs_def)
  have load: "load_resume fixture_libs
                ((fs w0)(resolve fixture_libs ''uploads/a.pdf'' \<mapsto> stream ?file))
                ''uploads/a.pdf'' = Inr ''{}''"
    by (simp add: run_defs)
  have resp: "chain_invoke fixture_libs (calls w0) ''{}'' = Inr ''{}''"
    by (simp add: fixture_libs_def)
  have parsed: "json_loads fixture_libs (strip (sub_fences ''{}'')) = Inr (JObject [])"
    by (simp add: run_defs)
  have noerr: "py_in ''error'' (JObject []) = Inr False"
    by simp
  have html: "template_render fixture_libs ''Candidate'' ''example@email.com'' (JObject []) =
                Inr ''Candidate,example@email.com''"
    by (simp add: fixture_libs_def)
  have pdf: "html_to_pdf fixture_libs ''Candidate,example@email.com'' =
               Inr ''%PDF Candidate,example@email.com''"
    by (simp add: fixture_libs_def)
  have out: "''output/a_formatted.pdf'' =
               path_join OUTPUT_FOLDER (fst (splitext (filename ?file)) @ ''_formatted.pdf'')"
    by (simp add: run_defs)
  have wr: "may_write fixture_libs ''output/a_formatted.pdf''"
    by (simp add: fixture_libs_def)
  from missing_form_fields_default
         [OF files name contact pre path save load resp parsed noerr html pdf out wr]
  have "upload_resume fixture_libs one_file w0 =
          (case process_files fixture_libs ''Candidate'' ''example@email.com'' []
                  ([] @ [''output/a_formatted.pdf''])
                  (w0\<lparr>fs := ((fs w0)(resolve fixture_libs ''uploads/a.pdf'' \<mapsto> stream ?file))
                              (resolve fixture_libs ''output/a_formatted.pdf'' \<mapsto>
                                 ''%PDF Candidate,example@email.com''),
                      calls := calls w0 @ [Invoke ''{}'', Loads (strip (sub_fences ''{}'')),
                                 Render ''Candidate'' ''example@email.com'' (JObject [])]\<rparr>) of
             (Inl e, w') \<Rightarrow> (Inl e, w')
           | (Inr pdf_paths, w') \<Rightarrow> send_zip fixture_libs pdf_paths w')"
    by blast
  then show ?thesis
    by (simp add: send_zip_def fixture_libs_def basename_def w0_def)
qed

subsection \<open>One PDF per file that passes the test\<close>

text \<open>
  C1, as the code has it. A file whose model answer is valid JSON is still skipped when
  \<open>"error" in\<close> the parsed value holds, so the claim needs that test to be false. Let the
  request's files be \<open>pre\<close>, then \<open>file\<close>, then \<open>post\<close>, and let the loop have handled \<open>pre\<close>
  with the PDFs \<open>paths\<close>. When \<open>load_resume\<close> returns the text of \<open>file\<close> (so its extension
  is \<open>.pdf\<close>, \<open>.docx\<close> or \<open>.doc\<close>), the model's answer, cleaned, parses to a value \<open>v\<close>
  with \<open>"error" in v\<close> false, the file name holds no \<open>/\<close>, and the handler returns an
  answer at all, then the answer is the archive, and its entry at the position after the
  PDFs of \<open>pre\<close> is named by the file name without its extension followed by
  \<open>_formatted.pdf\<close>; the entries after it number at most the files of \<open>post\<close>.
\<close>

theorem valid_json_file_gets_one_pdf:
  assumes files: "getlist (request_files req) ''resume'' = pre @ file # post"
    and name: "name = form_get (request_form req) ''name'' ''Candidate''"
    and contact: "contact = form_get (request_form req) ''contact'' ''example@email.com''"
    and pre: "process_files L name contact pre [] w = (Inr paths, w1)"
    and path: "path = path_join UPLOAD_FOLDER (filename file)"
    and load: "load_resume L ((fs w1)(resolve L path \<mapsto> stream file)) path = Inr text"
    and resp: "chain_invoke L (calls w1) text = Inr response"
    and parsed: "json_loads L (strip (sub_fences response)) = Inr v"
    and noerr: "py_in ''error'' v = Inr False"
    and noslash: "CHR ''/'' \<notin> set (filename file)"
    and ret: "upload_resume L req w = (Inr answer, w')"
  shows "\<exists>before bytes after.
           answer = SendFile
                      (before @ (fst (splitext (filename file)) @ ''_formatted.pdf'', bytes) # after)
                      ''Formatted_Resumes.zip'' ''application/zip'' \<and>
           length before = length paths \<and> length after \<le> length post"
proof -
  let ?w1' = "w1\<lparr>fs := (fs w1)(resolve L path \<mapsto> stream file)\<rparr>"
  let ?w2 = "?w1'\<lparr>calls := calls ?w1' @ [Invoke text, Loads (strip (sub_fences response))]\<rparr>"
  have c: "convert_to_json L text ?w1' = (Inr v, ?w2)"
    using resp parsed by (intro convert_to_json_parsed) simp_all
  from upload_resume_split [OF files pre [unfolded name contact]] ret
  have r: "(case process_files L name contact (file # post) paths w1 of
              (Inl e, w') \<Rightarrow> (Inl e, w')
            | (Inr pdf_paths, w') \<Rightarrow> send_zip L pdf_paths w') = (Inr answer, w')"
    by (simp add: name contact)
  then obtain all_paths w'' where
    pf: "process_files L name contact (file # post) paths w1 = (Inr all_paths, w'')"
    and sz: "send_zip L all_paths w'' = (Inr answer, w')"
    by (auto split: prod.splits sum.splits)
  have mw: "may_write L path"
    using pf by (auto simp: Let_def write_file_def path split: if_splits)
  obtain rg w3 where
    g: "generate_company_resume L v name contact (filename file) ?w2 = (rg, w3)"
    by force
  from pf mw load c noerr g obtain p where
    rg: "rg = Inr p" and
    rest: "process_files L name contact post (paths @ [p]) w3 = (Inr all_paths, w'')"
    unfolding path by (cases rg) (auto simp: Let_def write_file_def)
  have p: "p = path_join OUTPUT_FOLDER (fst (splitext (filename file)) @ ''_formatted.pdf'')"
    using g rg generate_company_resume_path by blast
  from process_files_extends [OF rest] obtain ext where
    ext: "all_paths = paths @ p # ext" "length ext \<le> length post"
    by auto
  from sz obtain entries where
    zw: "zip_write L (fs w'') all_paths = Inr entries" and
    ans: "answer = SendFile entries ''Formatted_Resumes.zip'' ''application/zip''"
    by (auto simp: send_zip_def split: sum.splits)
  from zip_write_names [OF zw] ext
  have "map fst entries = map basename paths @ basename p # map basename ext"
    by simp
  from map_eq_mid [OF this] obtain as b bs where
    e: "entries = as @ b # bs" "length as = length paths" "fst b = basename p"
       "length bs = length ext"
    by auto
  have "fst b = fst (splitext (filename file)) @ ''_formatted.pdf''"
    using e(3) p basename_output [OF noslash] by simp
  then have "b = (fst (splitext (filename file)) @ ''_formatted.pdf'', snd b)"
    by (cases b) simp
  then have "answer = SendFile
                 (as @ (fst (splitext (filename file)) @ ''_formatted.pdf'', snd b) # bs)
                 ''Formatted_Resumes.zip'' ''application/zip''"
    using ans e(1) by simp
  moreover have "length bs \<le> length post"
    using e(4) ext(2) by simp
  ultimately show ?thesis
    using e(2) by blast
qed

theorem valid_json_file_gets_one_pdf_witness:
  "\<exists>before bytes after.
     fst (upload_resume fixture_libs two_files w0) =
       Inr (SendFile (before @ (''A_formatted.pdf'', bytes) # after)
              ''Formatted_Resumes.zip'' ''application/zip'') \<and>
     length before = 0 \<and> length after \<le> 0"
proof -
  let ?file = "\<lparr>filename = ''A.PDF'', stream = ''{}''\<rparr>"
  let ?pre = "[\<lparr>filename = ''bad.pdf'', stream = ''Sorry''\<rparr>]"
  let ?w1 = "\<lparr>fs = [''uploads/bad.pdf'' \<mapsto> ''Sorry''],
              calls = [Invoke ''Sorry'', Loads ''Sorry''],
              console = [Failed_JSON_parse_warning]\<rparr>"
  have files: "getlist (request_files two_files) ''resume'' = ?pre @ ?file # []"
    by (simp add: two_files_def getlist_def)
  have name: "''Candidate'' = form_get (request_form two_files) ''name'' ''Candidate''"
    by (simp add: two_files_def form_get_def)
  have contact: "''example@email.com'' =
      form_get (request_form two_files) ''contact'' ''example@email.com''"
    by (simp add: two_files_def form_get_def)
  have pre: "process_files fixture_libs ''Candidate'' ''example@email.com'' ?pre [] w0 =
               (Inr [], ?w1)"
    by (simp add: run_defs)
  have path: "''uploads/A.PDF'' = path_join UPLOAD_FOLDER (filename ?file)"
    by (simp add: run_defs)
  have load: "load_resume fixture_libs ((fs ?w1)(resolve fixture_libs ''uploads/A.PDF'' \<mapsto> stream ?file))
                ''uploads/A.PDF'' = Inr ''{}''"
    by (simp add: run_defs)
  have resp: "chain_invoke fixture_libs (calls ?w1) ''{}'' = Inr ''{}''"
    by (simp add: fixture_libs_def)
  have parsed: "json_loads fixture_libs (strip (sub_fences ''{}'')) = Inr (JObject [])"
    by (simp add: run_defs)
  have noerr: "py_in ''error'' (JObject []) = Inr False"
    by simp
  have noslash: "CHR ''/'' \<notin> set (filename ?file)"
    by simp
  have ret: "upload_resume fixture_libs two_files w0 =
      (Inr (SendFile [(''A_formatted.pdf'', ''%PDF Candidate,example@email.com'')]
              ''Formatted_Resumes.zip'' ''application/zip''),
       snd (upload_resume fixture_libs two_files w0))"
    by (simp add: run_defs two_files_def)
  have stem: "fst (splitext (filename ?file)) = ''A''"
    by (simp add: run_defs)
  from valid_json_file_gets_one_pdf
         [OF files name contact pre path load resp parsed noerr noslash ret]
  show ?thesis
    unfolding stem by (simp add: ret [THEN arg_cong, of fst])
qed

text \<open>The claim as stated fails: the upload \<open>a.pdf\<close> has the extension \<open>.pdf\<close>, the
  answer \<open>{"error": "x"}\<close> parses as JSON, one model call and one parse are made, and the
  archive returned is empty.\<close>

theorem valid_json_with_error_key_counterexample:
  "lower (snd (splitext (path_join UPLOAD_FOLDER ''a.pdf''))) = ''.pdf'' \<and>
   json_loads fixture_libs (strip (sub_fences error_answer)) =
     Inr (JObject [(''error'', JString ''x'')]) \<and>
   calls (snd (upload_resume fixture_libs error_key_only w0)) =
     [Invoke error_answer, Loads error_answer] \<and>
   fst (upload_resume fixture_libs error_key_only w0) =
     Inr (SendFile [] ''Formatted_Resumes.zip'' ''application/zip'')"
  by (simp add: run_defs error_key_only_def)

subsection \<open>The case of the extension\<close>

text \<open>
  C10. \<open>load_resume\<close> picks the loader from the lowercased extension alone: two paths
  whose extensions are equal up to case get the same kind of loader, or the same error.
  And for a stem whose last component is not dots only, every spelling of the extension in
  capital and small letters is accepted and gets the loader of the lowercase spelling:
  \<open>.pdf\<close>, \<open>.PDF\<close>, \<open>.Pdf\<close> and the like the PDF loader; \<open>.docx\<close>, \<open>.DOCX\<close>,
  \<open>.Docx\<close> and the like, and \<open>.doc\<close>, \<open>.DOC\<close>, \<open>.Doc\<close> and the like, the DOCX loader.
\<close>

theorem extension_match_ignores_case:
  "(lower (snd (splitext p)) = lower (snd (splitext q)) \<longrightarrow>
      (case select_loader p of
         Inl err \<Rightarrow> select_loader q = Inl err
       | Inr (PyPDFLoader _) \<Rightarrow> select_loader q = Inr (PyPDFLoader q)
       | Inr (Docx2txtLoader _) \<Rightarrow> select_loader q = Inr (Docx2txtLoader q))) \<and>
   ((\<exists>c \<in> set (basename stem). c \<noteq> CHR ''.'') \<longrightarrow>
      (x1 \<in> {CHR ''p'', CHR ''P''} \<and> x2 \<in> {CHR ''d'', CHR ''D''} \<and> x3 \<in> {CHR ''f'', CHR ''F''} \<longrightarrow>
         select_loader (stem @ [CHR ''.'', x1, x2, x3]) =
           Inr (PyPDFLoader (stem @ [CHR ''.'', x1, x2, x3]))) \<and>
      (y1 \<in> {CHR ''d'', CHR ''D''} \<and> y2 \<in> {CHR ''o'', CHR ''O''} \<and> y3 \<in> {CHR ''c'', CHR ''C''} \<and>
       y4 \<in> {CHR ''x'', CHR ''X''} \<longrightarrow>
         select_loader (stem @ [CHR ''.'', y1, y2, y3, y4]) =
           Inr (Docx2txtLoader (stem @ [CHR ''.'', y1, y2, y3, y4]))) \<and>
      (z1 \<in> {CHR ''d'', CHR ''D''} \<and> z2 \<in> {CHR ''o'', CHR ''O''} \<and> z3 \<in> {CHR ''c'', CHR ''C''} \<longrightarrow>
         select_loader (stem @ [CHR ''.'', z1, z2, z3]) =
           Inr (Docx2txtLoader (stem @ [CHR ''.'', z1, z2, z3]))))"
proof (intro conjI impI)
  assume "lower (snd (splitext p)) = lower (snd (splitext q))"
  then show "case select_loader p of
         Inl err \<Rightarrow> select_loader q = Inl err
       | Inr (PyPDFLoader _) \<Rightarrow> select_loader q = Inr (PyPDFLoader q)
       | Inr (Docx2txtLoader _) \<Rightarrow> select_loader q = Inr (Docx2txtLoader q)"
    by (simp add: select_loader_def Let_def)
next
  assume nm: "\<exists>c \<in> set (basename stem). c \<noteq> CHR ''.''"
    and x: "x1 \<in> {CHR ''p'', CHR ''P''} \<and> x2 \<in> {CHR ''d'', CHR ''D''} \<and> x3 \<in> {CHR ''f'', CHR ''F''}"
  from x have l: "lower [CHR ''.'', x1, x2, x3] = ''.pdf''"
    by (auto simp: lower_def char_lower_def char_of_eq_iff)
  from x have "CHR ''.'' \<notin> set [x1, x2, x3]" "CHR ''/'' \<notin> set [x1, x2, x3]" by auto
  from select_loader_append [OF nm this] l
  show "select_loader (stem @ [CHR ''.'', x1, x2, x3]) =
          Inr (PyPDFLoader (stem @ [CHR ''.'', x1, x2, x3]))"
    by simp
next
  assume nm: "\<exists>c \<in> set (basename stem). c \<noteq> CHR ''.''"
    and y: "y1 \<in> {CHR ''d'', CHR ''D''} \<and> y2 \<in> {CHR ''o'', CHR ''O''} \<and> y3 \<in> {CHR ''c'', CHR ''C''} \<and>
            y4 \<in> {CHR ''x'', CHR ''X''}"
  from y have l: "lower [CHR ''.'', y1, y2, y3, y4] = ''.docx''"
    by (auto simp: lower_def char_lower_def char_of_eq_iff)
  from y have "CHR ''.'' \<notin> set [y1, y2, y3, y4]" "CHR ''/'' \<notin> set [y1, y2, y3, y4]" by auto
  from select_loader_append [OF nm this] l
  show "select_loader (stem @ [CHR ''.'', y1, y2, y3, y4]) =
          Inr (Docx2txtLoader (stem @ [CHR ''.'', y1, y2, y3, y4]))"
    by simp
next
  assume nm: "\<exists>c \<in> set (basename stem). c \<noteq> CHR ''.''"
    and z: "z1 \<in> {CHR ''d'', CHR ''D''} \<and> z2 \<in> {CHR ''o'', CHR ''O''} \<and> z3 \<in> {CHR ''c'', CHR ''C''}"
  from z have l: "lower [CHR ''.'', z1, z2, z3] = ''.doc''"
    by (auto simp: lower_def char_lower_def char_of_eq_iff)
  from z have "CHR ''.'' \<notin> set [z1, z2, z3]" "CHR ''/'' \<notin> set [z1, z2, z3]" by auto
  from select_loader_append [OF nm this] l
  show "select_loader (stem @ [CHR ''.'', z1, z2, z3]) =
          Inr (Docx2txtLoader (stem @ [CHR ''.'', z1, z2, z3]))"
    by simp
qed

theorem extension_match_ignores_case_witness:
  "select_loader ''uploads/CV.PDF'' = Inr (PyPDFLoader ''uploads/CV.PDF'') \<and>
   select_loader ''uploads/CV.Docx'' = Inr (Docx2txtLoader ''uploads/CV.Docx'') \<and>
   select_loader ''uploads/CV.DOC'' = Inr (Docx2txtLoader ''uploads/CV.DOC'') \<and>
   select_loader ''uploads/old.doc'' = Inr (Docx2txtLoader ''uploads/old.doc'')"
proof -
  have n: "\<exists>c \<in> set (basename ''uploads/CV''). c \<noteq> CHR ''.''"
    by (simp add: basename_def)
  have q: "lower (snd (splitext ''uploads/CV.DOC'')) = lower (snd (splitext ''uploads/old.doc''))"
    by (simp add: run_defs)
  note t = extension_match_ignores_case
             [of "''uploads/CV.DOC''" "''uploads/old.doc''" "''uploads/CV''"
                 "CHR ''P''" "CHR ''D''" "CHR ''F''"
                 "CHR ''D''" "CHR ''o''" "CHR ''c''" "CHR ''x''"
                 "CHR ''D''" "CHR ''O''" "CHR ''C''"]
  from t n have a: "select_loader (''uploads/CV'' @ [CHR ''.'', CHR ''P'', CHR ''D'', CHR ''F'']) =
      Inr (PyPDFLoader (''uploads/CV'' @ [CHR ''.'', CHR ''P'', CHR ''D'', CHR ''F'']))"
    by blast
  from t n have b: "select_loader (''uploads/CV'' @ [CHR ''.'', CHR ''D'', CHR ''o'', CHR ''c'', CHR ''x'']) =
      Inr (Docx2txtLoader (''uploads/CV'' @ [CHR ''.'', CHR ''D'', CHR ''o'', CHR ''c'', CHR ''x'']))"
    by blast
  from t n have c: "select_loader (''uploads/CV'' @ [CHR ''.'', CHR ''D'', CHR ''O'', CHR ''C'']) =
      Inr (Docx2txtLoader (''uploads/CV'' @ [CHR ''.'', CHR ''D'', CHR ''O'', CHR ''C'']))"
    by blast
  from t q have d: "case select_loader ''uploads/CV.DOC'' of
         Inl err \<Rightarrow> select_loader ''uploads/old.doc'' = Inl err
       | Inr (PyPDFLoader _) \<Rightarrow> select_loader ''uploads/old.doc'' = Inr (PyPDFLoader ''uploads/old.doc'')
       | Inr (Docx2txtLoader _) \<Rightarrow>
           select_loader ''uploads/old.doc'' = Inr (Docx2txtLoader ''uploads/old.doc'')"
    by blast
  from a have a': "select_loader ''uploads/CV.PDF'' = Inr (PyPDFLoader ''uploads/CV.PDF'')"
    by simp
  from b have b': "select_loader ''uploads/CV.Docx'' = Inr (Docx2txtLoader ''uploads/CV.Docx'')"
    by simp
  from c have c': "select_loader ''uploads/CV.DOC'' = Inr (Docx2txtLoader ''uploads/CV.DOC'')"
    by simp
  from d c' have "select_loader ''uploads/old.doc'' = Inr (Docx2txtLoader ''uploads/old.doc'')"
    by simp
  with a' b' c' show ?thesis by blast
qed

subsection \<open>Two PDFs for one stem\<close>

text \<open>
  C7, as the code has it. The output path is made from the file name without its
  extension, so two generations whose file names have the same stem (the same file name in
  particular) write the same path, \<open>os.path.join("output", <stem>_formatted.pdf)\<close>; for a
  file name that does not start with \<open>/\<close> this path is \<open>output/<stem>_formatted.pdf\<close>.
  After each generation the file that path names holds the PDF of that generation, so the
  second overwrites the first, and the second leaves every file that is not the one this
  path names as it was (a path that is another spelling of the same file reads the new PDF).
\<close>

theorem same_stem_overwrites:
  assumes g1: "generate_company_resume L d1 n1 c1 fname1 w = (Inr p1, w1)"
    and g2: "generate_company_resume L d2 n2 c2 fname2 v = (Inr p2, w2)"
    and same: "fst (splitext fname1) = fst (splitext fname2)"
  shows "p1 = path_join OUTPUT_FOLDER (fst (splitext fname1) @ ''_formatted.pdf'') \<and>
         (\<not> startswith fname1 ''/'' \<longrightarrow>
            p1 = ''output/'' @ fst (splitext fname1) @ ''_formatted.pdf'') \<and>
         p2 = p1 \<and>
         (\<exists>html pdf. template_render L n1 c1 d1 = Inr html \<and> html_to_pdf L html = Inr pdf \<and>
                     fs w1 (resolve L p1) = Some pdf) \<and>
         (\<exists>html pdf. template_render L n2 c2 d2 = Inr html \<and> html_to_pdf L html = Inr pdf \<and>
                     fs w2 (resolve L p1) = Some pdf) \<and>
         (\<forall>q. resolve L q \<noteq> resolve L p1 \<longrightarrow> fs w2 (resolve L q) = fs v (resolve L q))"
proof -
  from generate_company_resume_effect [OF g1] obtain h1 pdf1 where
    e1: "p1 = path_join OUTPUT_FOLDER (fst (splitext fname1) @ ''_formatted.pdf'')"
        "template_render L n1 c1 d1 = Inr h1" "html_to_pdf L h1 = Inr pdf1"
        "fs w1 = (fs w)(resolve L p1 \<mapsto> pdf1)"
    by blast
  from generate_company_resume_effect [OF g2] obtain h2 pdf2 where
    e2: "p2 = path_join OUTPUT_FOLDER (fst (splitext fname2) @ ''_formatted.pdf'')"
        "template_render L n2 c2 d2 = Inr h2" "html_to_pdf L h2 = Inr pdf2"
        "fs w2 = (fs v)(resolve L p2 \<mapsto> pdf2)"
    by blast
  have p: "p2 = p1" using e1(1) e2(1) same by simp
  have r: "\<not> startswith fname1 ''/'' \<longrightarrow>
             p1 = ''output/'' @ fst (splitext fname1) @ ''_formatted.pdf''"
    using e1(1) output_path_relative [of fname1] by simp
  have a: "fs w1 (resolve L p1) = Some pdf1" using e1(4) by simp
  have b: "fs w2 (resolve L p1) = Some pdf2" using e2(4) p by simp
  have f: "\<forall>q. resolve L q \<noteq> resolve L p1 \<longrightarrow> fs w2 (resolve L q) = fs v (resolve L q)"
    using e2(4) p by simp
  from e1(1) r p a b f e1(2,3) e2(2,3) show ?thesis by blast
qed

theorem same_stem_overwrites_witness:
  "fs first_pdf_done ''output/x_formatted.pdf'' = Some ''%PDF Bob,b@x.org'' \<and>
   fs second_pdf_done ''output/x_formatted.pdf'' = Some ''%PDF Cy,c@x.org'' \<and>
   fs second_pdf_done ''output/y_formatted.pdf'' = Some ''%PDF Dee,d@x.org''"
proof -
  have g1: "generate_company_resume fixture_libs (JObject []) ''Bob'' ''b@x.org'' ''x.pdf'' docx_done
              = (Inr ''output/x_formatted.pdf'', first_pdf_done)"
    by (simp add: first_pdf_done_def docx_done_def y_done_def run_defs)
  have g2: "generate_company_resume fixture_libs (JObject []) ''Cy'' ''c@x.org'' ''x.pdf'' first_pdf_done
              = (Inr ''output/x_formatted.pdf'', second_pdf_done)"
    by (simp add: second_pdf_done_def first_pdf_done_def docx_done_def y_done_def run_defs)
  have same: "fst (splitext ''x.pdf'') = fst (splitext ''x.pdf'')" by simp
  have other: "resolve fixture_libs ''output/y_formatted.pdf''
                 \<noteq> resolve fixture_libs ''output/x_formatted.pdf''"
    by (simp add: fixture_libs_def)
  have y: "fs first_pdf_done (resolve fixture_libs ''output/y_formatted.pdf'')
             = Some ''%PDF Dee,d@x.org''"
    by (simp add: first_pdf_done_def docx_done_def y_done_def run_defs)
  from same_stem_overwrites [OF g1 g2 same] other
  have "fs second_pdf_done (resolve fixture_libs ''output/y_formatted.pdf'') =
          fs first_pdf_done (resolve fixture_libs ''output/y_formatted.pdf'')"
    by blast
  with y have "fs second_pdf_done ''output/y_formatted.pdf'' = Some ''%PDF Dee,d@x.org''"
    by (simp add: fixture_libs_def)
  moreover from same_stem_overwrites [OF g1 g2 same]
  have "\<exists>html pdf. template_render fixture_libs ''Bob'' ''b@x.org'' (JObject []) = Inr html \<and>
          html_to_pdf fixture_libs html = Inr pdf \<and>
          fs first_pdf_done (resolve fixture_libs ''output/x_formatted.pdf'') = Some pdf"
    by blast
  then have "fs first_pdf_done ''output/x_formatted.pdf'' = Some ''%PDF Bob,b@x.org''"
    by (auto simp: fixture_libs_def)
  moreover from same_stem_overwrites [OF g1 g2 same]
  have "\<exists>html pdf. template_render fixture_libs ''Cy'' ''c@x.org'' (JObject []) = Inr html \<and>
          html_to_pdf fixture_libs html = Inr pdf \<and>
          fs second_pdf_done (resolve fixture_libs ''output/x_formatted.pdf'') = Some pdf"
    by blast
  then have "fs second_pdf_done ''output/x_formatted.pdf'' = Some ''%PDF Cy,c@x.org''"
    by (auto simp: fixture_libs_def)
  ultimately show ?thesis by blast
qed

text \<open>The claim as stated fails twice. For the file name \<open>/tmp/x.pdf\<close> the path written is
  \<open>/tmp/x_formatted.pdf\<close>, outside \<open>output\<close>. And the output file of the other file name
  \<open>x.docx\<close> is \<open>output/x_formatted.pdf\<close>, the one of \<open>x.pdf\<close>: it holds the PDF made for
  \<open>x.docx\<close>, then the first PDF made for \<open>x.pdf\<close>, and generating the second PDF for
  \<open>x.pdf\<close> changes it again.\<close>

theorem other_filename_same_stem_counterexample:
  "fst (generate_company_resume fixture_libs (JObject []) ''Ann'' ''a@x.org'' ''/tmp/x.pdf'' w0)
     = Inr ''/tmp/x_formatted.pdf'' \<and>
   fst (generate_company_resume fixture_libs (JObject []) ''Ann'' ''a@x.org'' ''x.docx'' y_done)
     = Inr ''output/x_formatted.pdf'' \<and>
   fs docx_done ''output/x_formatted.pdf'' = Some ''%PDF Ann,a@x.org'' \<and>
   fs first_pdf_done ''output/x_formatted.pdf'' = Some ''%PDF Bob,b@x.org'' \<and>
   fs second_pdf_done ''output/x_formatted.pdf'' = Some ''%PDF Cy,c@x.org''"
  by (simp add: second_pdf_done_def first_pdf_done_def docx_done_def y_done_def run_defs)

end
